theory Spec2Isabelle
  imports Main "HOL-Library.Word"
begin

section \<open>Values exchanged with the agents\<close>

text \<open>
  Every agent answer is \<^verbatim>\<open>json.loads(response)\<close>, annotated \<^verbatim>\<open>Dict[str, Any]\<close>: a
  dictionary with text keys whose values are arbitrary parsed JSON. A float is kept as
  its 64 IEEE bits; the only thing the workflow asks of one is whether it is zero.
  A dictionary is an association list in insertion order (keys distinct, as in Python).
\<close>

datatype json =
    JNull
  | JBool bool
  | JInt int
  | JFloat "64 word"
  | JStr string
  | JList "json list"
  | JObj "(string \<times> json) list"

type_synonym pydict = "(string \<times> json) list"

text \<open>Python truthiness (\<^verbatim>\<open>if x\<close>, \<^verbatim>\<open>not x\<close>, \<^verbatim>\<open>x or y\<close>) of a parsed JSON value.\<close>

fun truthy :: "json \<Rightarrow> bool" where
  "truthy JNull = False"
| "truthy (JBool b) = b"
| "truthy (JInt i) = (i \<noteq> 0)"
| "truthy (JFloat w) = (take_bit 63 w \<noteq> 0)"
| "truthy (JStr s) = (s \<noteq> [])"
| "truthy (JList xs) = (xs \<noteq> [])"
| "truthy (JObj kvs) = (kvs \<noteq> [])"

text \<open>\<^verbatim>\<open>d.get(k)\<close>: the value, or \<^verbatim>\<open>None\<close> when the key is absent.\<close>

definition get :: "pydict \<Rightarrow> string \<Rightarrow> json" where
  "get d k = (case map_of d k of None \<Rightarrow> JNull | Some v \<Rightarrow> v)"

text \<open>\<^verbatim>\<open>d.get(k, default)\<close>.\<close>

definition get_default :: "pydict \<Rightarrow> string \<Rightarrow> json \<Rightarrow> json" where
  "get_default d k dflt = (case map_of d k of None \<Rightarrow> dflt | Some v \<Rightarrow> v)"

text \<open>\<^verbatim>\<open>d.setdefault(k, v)\<close>: a present key (even one bound to null) is left alone.\<close>

definition setdefault :: "pydict \<Rightarrow> string \<Rightarrow> json \<Rightarrow> pydict" where
  "setdefault d k v = (case map_of d k of None \<Rightarrow> d @ [(k, v)] | Some _ \<Rightarrow> d)"

text \<open>\<^verbatim>\<open>isinstance(x, list)\<close>.\<close>

fun is_list :: "json \<Rightarrow> bool" where
  "is_list (JList xs) = True"
| "is_list _ = False"

subsection \<open>Text\<close>

text \<open>Decimal rendering of an integer, as \<^verbatim>\<open>str(n)\<close> and an f-string do.\<close>

fun digits :: "nat \<Rightarrow> string" where
  "digits n =
     (if n < 10 then [char_of (48 + n)]
      else digits (n div 10) @ [char_of (48 + n mod 10)])"

declare digits.simps [simp del]

definition str_int :: "int \<Rightarrow> string" where
  "str_int i = (if i < 0 then CHR ''-'' # digits (nat (- i)) else digits (nat i))"

text \<open>
  The interpreter's own conversions, where the workflow hands them a value that is not
  the expected kind: \<^verbatim>\<open>dict(x)\<close> of something that is not a dictionary (it raises for
  most values and builds a dictionary from a sequence of pairs), and \<^verbatim>\<open>str(x)\<close> of a
  float, list or dictionary. They are parameters of the model.
\<close>

type_synonym exn = string

record python =
  dict_other :: "json \<Rightarrow> exn + pydict"
  str_other :: "json \<Rightarrow> string"

text \<open>\<^verbatim>\<open>dict(raw_step)\<close>: a shallow copy of a dictionary.\<close>

definition py_dict :: "python \<Rightarrow> json \<Rightarrow> exn + pydict" where
  "py_dict py v = (case v of JObj kvs \<Rightarrow> Inr kvs | _ \<Rightarrow> dict_other py v)"

text \<open>\<^verbatim>\<open>str(x)\<close>, which is what \<^verbatim>\<open>{x}\<close> in an f-string inserts.\<close>

definition py_str :: "python \<Rightarrow> json \<Rightarrow> string" where
  "py_str py v =
     (case v of
        JNull \<Rightarrow> ''None''
      | JBool b \<Rightarrow> (if b then ''True'' else ''False'')
      | JInt i \<Rightarrow> str_int i
      | JStr s \<Rightarrow> s
      | _ \<Rightarrow> str_other py v)"

text \<open>The name \<^verbatim>\<open>type(x).__name__\<close> that a TypeError message quotes.\<close>

fun type_name :: "json \<Rightarrow> string" where
  "type_name JNull = ''NoneType''"
| "type_name (JBool b) = ''bool''"
| "type_name (JInt i) = ''int''"
| "type_name (JFloat w) = ''float''"
| "type_name (JStr s) = ''str''"
| "type_name (JList xs) = ''list''"
| "type_name (JObj kvs) = ''dict''"

text \<open>
  Errors: the three exception classes raised inside the workflow, and whatever an agent
  call or the file system raised, which the workflow lets through untouched.
\<close>

datatype error =
    ValueError string
  | RuntimeError string
  | TypeError string
  | Propagated exn

text \<open>
  \<^verbatim>\<open>"\n".join(lines)\<close>: every item has to be text; the first one that is not raises
  TypeError naming its position and type.
\<close>

fun join_from :: "nat \<Rightarrow> json list \<Rightarrow> error + string" where
  "join_from i [] = Inr []"
| "join_from i (JStr s # rest) =
     (case join_from (Suc i) rest of
        Inl e \<Rightarrow> Inl e
      | Inr t \<Rightarrow> Inr (if rest = [] then s else s @ CHR 0x0A # t))"
| "join_from i (v # rest) =
     Inl (TypeError (''sequence item '' @ digits i @ '': expected str instance, ''
                      @ type_name v @ '' found''))"

definition join_lines :: "json list \<Rightarrow> error + string" where
  "join_lines lines = join_from 0 lines"

section \<open>The dataclasses of workflow.py\<close>

text \<open>
  Field names are those of the source; \<open>context\<close>, \<open>step\<close>, \<open>output\<close>, \<open>attempt\<close>,
  \<open>task\<close> and \<open>plan\<close> carry the suffix \<open>_of\<close>, the plain names being needed for variables.
\<close>

record Task =
  name :: string
  objective :: string
  context_of :: "string option"
  deliverable :: "string option"
  constraints :: "string list option"

record StepResult =
  step_id :: json
  step_of :: pydict
  output_of :: pydict
  review :: pydict
  attempt_of :: int

record TaskRunResult =
  task_of :: Task
  plan_of :: pydict
  step_results :: "StepResult list"
  reviewer_summary :: pydict
  coordinator_summary :: "string option"

text \<open>Truthiness of an \<^verbatim>\<open>Optional[str]\<close>: neither \<^verbatim>\<open>None\<close> nor empty.\<close>

fun present :: "string option \<Rightarrow> bool" where
  "present None = False"
| "present (Some s) = (s \<noteq> [])"

text \<open>One line of the execution timeline (the body of the loop in \<^verbatim>\<open>to_markdown\<close>).\<close>

definition timeline_line :: "python \<Rightarrow> StepResult \<Rightarrow> json" where
  "timeline_line py result =
     (let status = (if truthy (get (review result) ''approved'')
                    then ''Approved'' else ''Pending'')
      in JStr (''- **'' @ py_str py (step_id result) @ ''** (attempt ''
               @ str_int (attempt_of result) @ '', '' @ status @ ''): ''
               @ py_str py (get_default (output_of result) ''summary''
                              (JStr ''No summary available''))))"

text \<open>\<^verbatim>\<open>TaskRunResult.to_markdown\<close>.\<close>

definition to_markdown :: "python \<Rightarrow> TaskRunResult \<Rightarrow> error + string" where
  "to_markdown py self =
     (let lines = [JStr (''# Task Report: '' @ name (task_of self)),
                   JStr '''',
                   JStr (''**Objective:** '' @ objective (task_of self))];
          lines = (if present (context_of (task_of self))
                   then lines @ [JStr (''**Context:** '' @ the (context_of (task_of self)))]
                   else lines);
          lines = (if present (deliverable (task_of self))
                   then lines @ [JStr (''**Expected Deliverable:** ''
                                       @ the (deliverable (task_of self)))]
                   else lines);
          lines = lines @ [JStr '''', JStr ''## Plan Overview'',
                           get_default (plan_of self) ''plan_overview''
                             (JStr ''No overview provided.''),
                           JStr ''''];
          lines = lines @ [JStr ''## Execution Timeline''];
          lines = (if step_results self = []
                   then lines @ [JStr ''No steps were executed.'']
                   else lines @ map (timeline_line py) (step_results self));
          lines = lines @ [JStr ''''];
          lines = lines @ [JStr ''## Reviewer Verdict''];
          lines = lines @ [get_default (reviewer_summary self) ''feedback''
                             (JStr ''No reviewer feedback recorded.'')];
          lines = lines @ [JStr ''''];
          lines = (if present (coordinator_summary self)
                   then lines @ [JStr ''## Coordinator Summary'',
                                 JStr (the (coordinator_summary self)),
                                 JStr '''']
                   else lines)
      in join_lines lines)"

section \<open>The agents and the workflow object\<close>

text \<open>
  The agents are language-model calls: what they answer is outside the program. Each
  call is a function of its arguments and of the exchanges made so far (an agent keeps
  its conversations, and the run keeps an append-only log of every exchange), and it
  either answers or raises. An event records one call: its arguments and what came back.
  The log-file path, a constant handed to every call, is left out.
\<close>

datatype event =
    KickoffTask Task "exn + string"
  | ProposePlan Task json "pydict option" "exn + pydict"
  | ReviewPlan Task pydict int "exn + pydict"
  | ExecuteStep Task pydict "StepResult list" json "exn + pydict"
  | ReviewStep Task pydict pydict int "exn + pydict"
  | FinalReview Task pydict "StepResult list" "exn + pydict"
  | SynthesiseOutcome Task pydict "StepResult list" pydict "exn + string"
  | WriteText string string "exn + unit"

record Coordinator =
  kickoff_task :: "event list \<Rightarrow> Task \<Rightarrow> exn + string"
  synthesise_outcome ::
    "event list \<Rightarrow> Task \<Rightarrow> pydict \<Rightarrow> StepResult list \<Rightarrow> pydict \<Rightarrow> exn + string"

text \<open>
  \<^verbatim>\<open>AutomationWorkflow\<close>: the planner's, executor's and reviewer's methods, the optional
  coordinator, the three bounds, and the file write behind \<^verbatim>\<open>report_path.write_text\<close>.
  A feedback argument is a JSON value, \<open>JNull\<close> standing for \<^verbatim>\<open>None\<close>.
\<close>

record AutomationWorkflow =
  propose_plan :: "event list \<Rightarrow> Task \<Rightarrow> json \<Rightarrow> pydict option \<Rightarrow> exn + pydict"
  review_plan :: "event list \<Rightarrow> Task \<Rightarrow> pydict \<Rightarrow> int \<Rightarrow> exn + pydict"
  execute_step ::
    "event list \<Rightarrow> Task \<Rightarrow> pydict \<Rightarrow> StepResult list \<Rightarrow> json \<Rightarrow> exn + pydict"
  review_step :: "event list \<Rightarrow> Task \<Rightarrow> pydict \<Rightarrow> pydict \<Rightarrow> int \<Rightarrow> exn + pydict"
  final_review :: "event list \<Rightarrow> Task \<Rightarrow> pydict \<Rightarrow> StepResult list \<Rightarrow> exn + pydict"
  coordinator :: "Coordinator option"
  write_text :: "event list \<Rightarrow> string \<Rightarrow> string \<Rightarrow> exn + unit"
  max_plan_iterations :: int
  max_step_iterations :: int
  max_replan_attempts :: int

section \<open>Executing a plan\<close>

text \<open>
  The inner loop of \<^verbatim>\<open>_execute_plan\<close>, \<^verbatim>\<open>for attempt in range(1, max_step_iterations + 1)\<close>,
  entered at \<open>attempt\<close>. It returns \<open>step_attempts\<close>, \<open>approved_results\<close> and
  \<open>require_replan\<close> as they stand when the loop is left. The step always has an
  \<open>id\<close> here (\<^verbatim>\<open>setdefault\<close> ran just before), so \<^verbatim>\<open>step["id"]\<close> is a plain lookup.
\<close>

function attempt_loop ::
  "AutomationWorkflow \<Rightarrow> Task \<Rightarrow> pydict \<Rightarrow> StepResult list \<Rightarrow> int \<Rightarrow> json
     \<Rightarrow> StepResult list \<Rightarrow> event list
     \<Rightarrow> (error + StepResult list \<times> StepResult list \<times> bool) \<times> event list" where
  "attempt_loop self task step approved_results attempt attempt_feedback step_attempts tr =
     (if attempt \<le> max_step_iterations self then
        (let r = execute_step self tr task step approved_results attempt_feedback;
             tr = tr @ [ExecuteStep task step approved_results attempt_feedback r]
         in case r of
              Inl x \<Rightarrow> (Inl (Propagated x), tr)
            | Inr execution_output \<Rightarrow>
               (let r = review_step self tr task step execution_output attempt;
                    tr = tr @ [ReviewStep task step execution_output attempt r]
                in case r of
                     Inl x \<Rightarrow> (Inl (Propagated x), tr)
                   | Inr step_review \<Rightarrow>
                      (let step_result = \<lparr>step_id = get step ''id'', step_of = step,
                                          output_of = execution_output,
                                          review = step_review, attempt_of = attempt\<rparr>;
                           step_attempts = step_attempts @ [step_result]
                       in if truthy (get step_review ''approved'') then
                            (Inr (step_attempts, approved_results @ [step_result], False), tr)
                          else if truthy (get step_review ''requires_replan'') then
                            (Inr (step_attempts, approved_results, True), tr)
                          else
                            attempt_loop self task step approved_results (attempt + 1)
                              (get step_review ''feedback'') step_attempts tr)))
      else (Inr (step_attempts, approved_results, False), tr))"
  by pat_completeness auto
termination
  by (relation "measure (\<lambda>(self, task, step, approved_results, attempt, rest).
                           nat (max_step_iterations self + 1 - attempt))") auto

declare attempt_loop.simps [simp del]

text \<open>How the loop over the steps is left when it does not raise.\<close>

datatype steps_outcome =
    AllApproved "StepResult list"
  | ReplanRequested json

text \<open>
  The outer loop, \<^verbatim>\<open>for index, raw_step in enumerate(steps, start=1)\<close>, over the steps
  still to run. A replan request carries the feedback of the last attempt's review.
\<close>

fun step_loop ::
  "python \<Rightarrow> AutomationWorkflow \<Rightarrow> Task \<Rightarrow> json list \<Rightarrow> int \<Rightarrow> StepResult list
     \<Rightarrow> StepResult list \<Rightarrow> event list \<Rightarrow> (error + steps_outcome) \<times> event list" where
  "step_loop py self task [] index all_results approved_results tr =
     (Inr (AllApproved all_results), tr)"
| "step_loop py self task (raw_step # rest) index all_results approved_results tr =
     (case py_dict py raw_step of
        Inl x \<Rightarrow> (Inl (Propagated x), tr)
      | Inr d \<Rightarrow>
         (let step = setdefault d ''id'' (JStr (''step-'' @ str_int index))
          in case attempt_loop self task step approved_results 1 JNull [] tr of
               (Inl e, tr) \<Rightarrow> (Inl e, tr)
             | (Inr (step_attempts, approved_results, require_replan), tr) \<Rightarrow>
                (let all_results = all_results @ step_attempts
                 in if require_replan then
                      (Inr (ReplanRequested
                              (if step_attempts \<noteq> []
                               then get (review (last step_attempts)) ''feedback''
                               else JNull)), tr)
                    else if step_attempts = []
                            \<or> \<not> truthy (get (review (last step_attempts)) ''approved'') then
                      (Inl (RuntimeError
                              (''Step '' @ [CHR 0x27] @ py_str py (get step ''id'') @ [CHR 0x27]
                               @ '' was not approved after ''
                               @ str_int (max_step_iterations self) @ '' attempts.'')), tr)
                    else step_loop py self task rest (index + 1) all_results approved_results tr)))"

text \<open>
  \<^verbatim>\<open>_write_report\<close>: render the report, then write it. The file is named after the task
  (a slug of its name under the reports directory); the model hands the name itself to
  the file system.
\<close>

definition write_report ::
  "python \<Rightarrow> AutomationWorkflow \<Rightarrow> TaskRunResult \<Rightarrow> event list
     \<Rightarrow> (error + unit) \<times> event list" where
  "write_report py self result tr =
     (case to_markdown py result of
        Inl e \<Rightarrow> (Inl e, tr)
      | Inr text \<Rightarrow>
         (let r = write_text self tr (name (task_of result)) text;
              tr = tr @ [WriteText (name (task_of result)) text r]
          in case r of
               Inl x \<Rightarrow> (Inl (Propagated x), tr)
             | Inr u \<Rightarrow> (Inr (), tr)))"

text \<open>The tail of \<^verbatim>\<open>_execute_plan\<close>, after the loop over the steps has run to its end.\<close>

definition finalise ::
  "python \<Rightarrow> AutomationWorkflow \<Rightarrow> Task \<Rightarrow> pydict \<Rightarrow> StepResult list \<Rightarrow> event list
     \<Rightarrow> (error + TaskRunResult option \<times> json) \<times> event list" where
  "finalise py self task plan all_results tr =
     (let r = final_review self tr task plan all_results;
          tr = tr @ [FinalReview task plan all_results r]
      in case r of
           Inl x \<Rightarrow> (Inl (Propagated x), tr)
         | Inr summary \<Rightarrow>
            (case (case coordinator self of
                     None \<Rightarrow> (Inr None, tr)
                   | Some c \<Rightarrow>
                      (let r = synthesise_outcome c tr task plan all_results summary;
                           tr = tr @ [SynthesiseOutcome task plan all_results summary r]
                       in case r of
                            Inl x \<Rightarrow> (Inl (Propagated x), tr)
                          | Inr text \<Rightarrow> (Inr (Some text), tr))) of
               (Inl e, tr) \<Rightarrow> (Inl e, tr)
             | (Inr narrative, tr) \<Rightarrow>
                (let result = \<lparr>task_of = task, plan_of = plan, step_results = all_results,
                               reviewer_summary = summary,
                               coordinator_summary = narrative\<rparr>
                 in case write_report py self result tr of
                      (Inl e, tr) \<Rightarrow> (Inl e, tr)
                    | (Inr u, tr) \<Rightarrow> (Inr (Some result, JNull), tr))))"

text \<open>
  \<^verbatim>\<open>AutomationWorkflow._execute_plan\<close>. The result is the pair the source returns:
  the run result and no feedback, or no result and the feedback of the replan request.
\<close>

definition execute_plan ::
  "python \<Rightarrow> AutomationWorkflow \<Rightarrow> Task \<Rightarrow> pydict \<Rightarrow> event list
     \<Rightarrow> (error + TaskRunResult option \<times> json) \<times> event list" where
  "execute_plan py self task plan tr =
     (let steps = (if truthy (get plan ''steps'') then get plan ''steps'' else JList [])
      in case steps of
           JList xs \<Rightarrow>
            (case step_loop py self task xs 1 [] [] tr of
               (Inl e, tr) \<Rightarrow> (Inl e, tr)
             | (Inr (ReplanRequested feedback), tr) \<Rightarrow> (Inr (None, feedback), tr)
             | (Inr (AllApproved all_results), tr) \<Rightarrow> finalise py self task plan all_results tr)
         | _ \<Rightarrow>
            (Inl (ValueError ''Planner response must contain a 'steps' array.''), tr))"

section \<open>Running a task\<close>

text \<open>
  The \<^verbatim>\<open>while plan_attempt < self.max_plan_iterations\<close> loop of \<^verbatim>\<open>run_task\<close>. The inner
  \<^verbatim>\<open>while True\<close> has no path back to its head: its body returns, raises or breaks, so it
  is written out once, with \<open>replan_attempts\<close> set to 0 just before it as in the source.
\<close>

function plan_loop ::
  "python \<Rightarrow> AutomationWorkflow \<Rightarrow> Task \<Rightarrow> int \<Rightarrow> json \<Rightarrow> pydict option \<Rightarrow> event list
     \<Rightarrow> (error + TaskRunResult) \<times> event list" where
  "plan_loop py self task plan_attempt feedback previous_plan tr =
     (if plan_attempt < max_plan_iterations self then
        (let plan_attempt = plan_attempt + 1;
             r = propose_plan self tr task feedback previous_plan;
             tr = tr @ [ProposePlan task feedback previous_plan r]
         in case r of
              Inl x \<Rightarrow> (Inl (Propagated x), tr)
            | Inr plan \<Rightarrow>
               (let r = review_plan self tr task plan plan_attempt;
                    tr = tr @ [ReviewPlan task plan plan_attempt r]
                in case r of
                     Inl x \<Rightarrow> (Inl (Propagated x), tr)
                   | Inr plan_review \<Rightarrow>
                      if \<not> truthy (get plan_review ''approved'') then
                        plan_loop py self task plan_attempt (get plan_review ''feedback'')
                          (Some plan) tr
                      else
                        (let replan_attempts = (0 :: int)
                         in case execute_plan py self task plan tr of
                              (Inl e, tr) \<Rightarrow> (Inl e, tr)
                            | (Inr (Some run_result, execution_feedback), tr) \<Rightarrow>
                                (Inr run_result, tr)
                            | (Inr (None, execution_feedback), tr) \<Rightarrow>
                               (let replan_attempts = replan_attempts + 1
                                in if replan_attempts > max_replan_attempts self then
                                     (Inl (RuntimeError
                                        (''Exceeded maximum execution replans for task ''
                                         @ [CHR 0x27] @ name task @ [CHR 0x27] @ ''.'')), tr)
                                   else
                                     plan_loop py self task plan_attempt
                                       (if truthy execution_feedback then execution_feedback
                                        else JStr ''Reviewer requested a re-plan during execution.'')
                                       (Some plan) tr))))
      else
        (Inl (RuntimeError (''Exceeded maximum plan attempts for task ''
                            @ [CHR 0x27] @ name task @ [CHR 0x27] @ ''.'')), tr))"
  by pat_completeness auto
termination
  by (relation "measure (\<lambda>(py, self, task, plan_attempt, rest).
                           nat (max_plan_iterations self - plan_attempt))") auto

declare plan_loop.simps [simp del]

text \<open>\<^verbatim>\<open>AutomationWorkflow.run_task\<close>.\<close>

definition run_task ::
  "python \<Rightarrow> AutomationWorkflow \<Rightarrow> Task \<Rightarrow> event list \<Rightarrow> (error + TaskRunResult) \<times> event list" where
  "run_task py self task tr =
     (case coordinator self of
        None \<Rightarrow> plan_loop py self task 0 JNull None tr
      | Some c \<Rightarrow>
         (let r = kickoff_task c tr task;
              tr = tr @ [KickoffTask task r]
          in case r of
               Inl x \<Rightarrow> (Inl (Propagated x), tr)
             | Inr note \<Rightarrow> plan_loop py self task 0 JNull None tr))"


section \<open>Reading the log\<close>

fun is_execute_step :: "event \<Rightarrow> bool" where
  "is_execute_step (ExecuteStep t s p fb r) = True"
| "is_execute_step _ = False"

fun is_review_step :: "event \<Rightarrow> bool" where
  "is_review_step (ReviewStep t s out a r) = True"
| "is_review_step _ = False"

fun is_propose_plan :: "event \<Rightarrow> bool" where
  "is_propose_plan (ProposePlan t fb p r) = True"
| "is_propose_plan _ = False"

fun is_review_plan :: "event \<Rightarrow> bool" where
  "is_review_plan (ReviewPlan t p i r) = True"
| "is_review_plan _ = False"

text \<open>The \<^verbatim>\<open>StepResult\<close> that the attempt loop builds from a reviewed attempt.\<close>

definition step_result :: "pydict \<Rightarrow> pydict \<Rightarrow> pydict \<Rightarrow> int \<Rightarrow> StepResult" where
  "step_result s out rv a =
     \<lparr>step_id = get s ''id'', step_of = s, output_of = out, review = rv, attempt_of = a\<rparr>"

text \<open>The message of the error raised when a step runs out of attempts.\<close>

definition step_bound_message :: "python \<Rightarrow> AutomationWorkflow \<Rightarrow> pydict \<Rightarrow> string" where
  "step_bound_message py self step =
     ''Step '' @ [CHR 0x27] @ py_str py (get step ''id'') @ [CHR 0x27]
     @ '' was not approved after '' @ str_int (max_step_iterations self) @ '' attempts.''"

text \<open>The feedback handed to the planner when the replan request carried none.\<close>

definition replan_default :: json where
  "replan_default = JStr ''Reviewer requested a re-plan during execution.''"

text \<open>The step results recorded in a log: one for each step review that was answered.\<close>

fun result_of :: "event \<Rightarrow> StepResult list" where
  "result_of (ReviewStep t s out a (Inr rv)) = [step_result s out rv a]"
| "result_of _ = []"

definition results_of :: "event list \<Rightarrow> StepResult list" where
  "results_of tr = concat (map result_of tr)"

text \<open>An execution or a review of the given step, made with the given prior results.\<close>

fun step_event :: "Task \<Rightarrow> pydict \<Rightarrow> StepResult list \<Rightarrow> event \<Rightarrow> bool" where
  "step_event task step prior (ExecuteStep t s p fb r) = (t = task \<and> s = step \<and> p = prior)"
| "step_event task step prior (ReviewStep t s out a r) = (t = task \<and> s = step)"
| "step_event task step prior _ = False"

text \<open>A step result whose review approved the attempt.\<close>

definition is_approved :: "StepResult \<Rightarrow> bool" where
  "is_approved sr = truthy (get (review sr) ''approved'')"

text \<open>The messages of the two errors raised by \<^verbatim>\<open>run_task\<close> itself.\<close>

definition plan_bound_message :: "Task \<Rightarrow> string" where
  "plan_bound_message task =
     ''Exceeded maximum plan attempts for task '' @ [CHR 0x27] @ name task @ [CHR 0x27] @ ''.''"

definition replan_bound_message :: "Task \<Rightarrow> string" where
  "replan_bound_message task =
     ''Exceeded maximum execution replans for task '' @ [CHR 0x27] @ name task @ [CHR 0x27]
     @ ''.''"

text \<open>A call to the planner or a plan review.\<close>

fun is_plan_event :: "event \<Rightarrow> bool" where
  "is_plan_event (ProposePlan t fb p r) = True"
| "is_plan_event (ReviewPlan t p i r) = True"
| "is_plan_event _ = False"

text \<open>A step review that asks for a new plan: not approved, \<open>requires_replan\<close> set.\<close>

fun is_replan_request :: "event \<Rightarrow> bool" where
  "is_replan_request (ReviewStep t s out a (Inr rv)) =
     (\<not> truthy (get rv ''approved'') \<and> truthy (get rv ''requires_replan''))"
| "is_replan_request _ = False"

text \<open>The log after the last planning call: the execution of the last approved plan.\<close>

definition last_execution :: "event list \<Rightarrow> event list" where
  "last_execution tr = rev (takeWhile (\<lambda>e. \<not> is_plan_event e) (rev tr))"

text \<open>A plan review that approves.\<close>

fun is_plan_approval :: "event \<Rightarrow> bool" where
  "is_plan_approval (ReviewPlan t p i (Inr rv)) = truthy (get rv ''approved'')"
| "is_plan_approval _ = False"

text \<open>The log up to and including the first plan approval, that is, up to the point
  where the execution of steps is entered.\<close>

fun upto_approval :: "event list \<Rightarrow> event list" where
  "upto_approval [] = []"
| "upto_approval (e # es) = (if is_plan_approval e then [e] else e # upto_approval es)"

text \<open>The verdicts of the answered plan reviews of a log, in order.\<close>

fun verdict_of :: "event \<Rightarrow> bool list" where
  "verdict_of (ReviewPlan t p i (Inr rv)) = [truthy (get rv ''approved'')]"
| "verdict_of _ = []"

definition plan_verdicts :: "event list \<Rightarrow> bool list" where
  "plan_verdicts tr = concat (map verdict_of tr)"

text \<open>The log of a planning phase, given the proposed plans and their reviews in order.
  The first proposal is made with the given feedback and previous plan; each later one
  carries the plan proposed just before as \<open>previous_plan\<close> and the feedback of its
  review; the reviews are numbered from \<open>n + 1\<close>.\<close>

fun planning_trace ::
  "Task \<Rightarrow> int \<Rightarrow> json \<Rightarrow> pydict option \<Rightarrow> (pydict \<times> pydict) list \<Rightarrow> event list" where
  "planning_trace task n fb prev [] = []"
| "planning_trace task n fb prev ((plan, rv) # rounds) =
     ProposePlan task fb prev (Inr plan) # ReviewPlan task plan (n + 1) (Inr rv)
     # planning_trace task (n + 1) (get rv ''feedback'') (Some plan) rounds"

section \<open>Example runs\<close>

text \<open>
  The task of the specification's end-to-end example, and agents that answer from a
  script: the planner always proposes \<open>the_plan\<close>, the reviewer's n-th plan verdict is
  \<open>plan_verdict n\<close> and its n-th step verdict \<open>step_verdict n\<close> (counting from 0), the
  executor reports \<open>done\<close>, the final review says \<open>ok\<close>, and there is no coordinator.
\<close>

definition demo_task :: Task where
  "demo_task = \<lparr>name = ''t1'', objective = ''demo'', context_of = None,
                 deliverable = None, constraints = None\<rparr>"

definition interp :: python where
  "interp = \<lparr>dict_other = (\<lambda>v. Inl ''TypeError''), str_other = (\<lambda>v. [])\<rparr>"

definition scripted ::
  "pydict \<Rightarrow> (nat \<Rightarrow> pydict) \<Rightarrow> (nat \<Rightarrow> pydict) \<Rightarrow> int \<Rightarrow> int \<Rightarrow> int
     \<Rightarrow> AutomationWorkflow" where
  "scripted the_plan plan_verdict step_verdict mp ms mr =
     \<lparr>propose_plan = (\<lambda>tr task fb prev. Inr the_plan),
      review_plan = (\<lambda>tr task plan it. Inr (plan_verdict (length (filter is_review_plan tr)))),
      execute_step = (\<lambda>tr task step prior fb. Inr [(''summary'', JStr ''done'')]),
      review_step =
        (\<lambda>tr task step out a. Inr (step_verdict (length (filter is_review_step tr)))),
      final_review =
        (\<lambda>tr task plan results. Inr [(''approved'', JBool True), (''feedback'', JStr ''ok'')]),
      coordinator = None,
      write_text = (\<lambda>tr path md. Inr ()),
      max_plan_iterations = mp, max_step_iterations = ms, max_replan_attempts = mr\<rparr>"

definition approve :: pydict where
  "approve = [(''approved'', JBool True)]"

definition empty_plan :: pydict where
  "empty_plan = [(''plan_overview'', JStr ''o''), (''steps'', JList [])]"

definition no_steps_plan :: pydict where
  "no_steps_plan = [(''plan_overview'', JStr ''o'')]"

definition bad_steps_plan :: pydict where
  "bad_steps_plan = [(''plan_overview'', JStr ''o''), (''steps'', JStr ''soon'')]"

definition demo_result :: TaskRunResult where
  "demo_result = \<lparr>task_of = demo_task, plan_of = empty_plan, step_results = [],
      reviewer_summary = [(''approved'', JBool True), (''feedback'', JStr ''ok'')],
      coordinator_summary = None\<rparr>"

definition wf_ok :: AutomationWorkflow where
  "wf_ok = scripted empty_plan (\<lambda>n. approve) (\<lambda>n. approve) 3 3 2"

definition one_step_plan :: pydict where
  "one_step_plan =
     [(''plan_overview'', JStr ''o''), (''steps'', JList [JObj [(''id'', JStr ''step-1'')]])]"

definition two_step_plan :: pydict where
  "two_step_plan =
     [(''plan_overview'', JStr ''o''),
      (''steps'', JList [JObj [(''id'', JStr ''step-1'')], JObj [(''id'', JStr ''step-2'')]])]"

definition reject :: pydict where
  "reject = [(''approved'', JBool False), (''requires_replan'', JBool False),
             (''feedback'', JStr ''again'')]"

definition replan :: pydict where
  "replan = [(''approved'', JBool False), (''requires_replan'', JBool True),
             (''feedback'', JStr ''redo'')]"

definition approve_and_replan :: pydict where
  "approve_and_replan = [(''approved'', JBool True), (''requires_replan'', JBool True)]"

definition done_output :: pydict where
  "done_output = [(''summary'', JStr ''done'')]"

definition step1 :: pydict where
  "step1 = [(''id'', JStr ''step-1'')]"

definition step2 :: pydict where
  "step2 = [(''id'', JStr ''step-2'')]"

definition ok_summary :: pydict where
  "ok_summary = [(''approved'', JBool True), (''feedback'', JStr ''ok'')]"

definition wf_reject :: AutomationWorkflow where
  "wf_reject = scripted one_step_plan (\<lambda>n. approve) (\<lambda>n. reject) 3 3 2"

definition wf_both :: AutomationWorkflow where
  "wf_both = scripted two_step_plan (\<lambda>n. approve)
               (\<lambda>n. if n = 0 then approve_and_replan else approve) 3 3 2"

definition wf_second_try :: AutomationWorkflow where
  "wf_second_try = scripted two_step_plan (\<lambda>n. approve)
                     (\<lambda>n. if n = 0 then reject else approve) 3 3 2"

definition second_try_attempts :: "StepResult list" where
  "second_try_attempts =
     [step_result step1 done_output reject 1, step_result step1 done_output approve 2]"

definition second_try_log :: "event list" where
  "second_try_log =
     [ExecuteStep demo_task step1 [] JNull (Inr done_output),
      ReviewStep demo_task step1 done_output 1 (Inr reject),
      ExecuteStep demo_task step1 [] (JStr ''again'') (Inr done_output),
      ReviewStep demo_task step1 done_output 2 (Inr approve)]"

definition replan_silent :: pydict where
  "replan_silent = [(''approved'', JBool False), (''requires_replan'', JBool True),
                    (''feedback'', JStr '''')]"

definition wf_always_replan :: AutomationWorkflow where
  "wf_always_replan = scripted one_step_plan (\<lambda>n. approve) (\<lambda>n. replan) 2 3 2"

definition wf_replan_once :: AutomationWorkflow where
  "wf_replan_once = scripted one_step_plan (\<lambda>n. approve)
                      (\<lambda>n. if n = 0 then replan else approve) 3 3 2"

definition wf_silent_replan :: AutomationWorkflow where
  "wf_silent_replan = scripted one_step_plan (\<lambda>n. approve)
                        (\<lambda>n. if n = 0 then replan_silent else approve) 3 3 2"

definition first_proposal :: event where
  "first_proposal = ProposePlan demo_task JNull None (Inr one_step_plan)"

definition reproposal :: "json \<Rightarrow> event" where
  "reproposal fb = ProposePlan demo_task fb (Some one_step_plan) (Inr one_step_plan)"

definition plan_approval :: "int \<Rightarrow> event" where
  "plan_approval i = ReviewPlan demo_task one_step_plan i (Inr approve)"

definition first_execution :: event where
  "first_execution = ExecuteStep demo_task step1 [] JNull (Inr done_output)"

definition first_review :: "pydict \<Rightarrow> event" where
  "first_review rv = ReviewStep demo_task step1 done_output 1 (Inr rv)"

definition wf_three_replans :: AutomationWorkflow where
  "wf_three_replans = scripted one_step_plan (\<lambda>n. approve)
                        (\<lambda>n. if n < 3 then replan else approve) 5 3 2"

definition plan_reject :: pydict where
  "plan_reject = [(''approved'', JBool False), (''feedback'', JStr ''more detail'')]"

definition wf_third_plan :: AutomationWorkflow where
  "wf_third_plan = scripted empty_plan (\<lambda>n. if n < 2 then plan_reject else approve)
                     (\<lambda>n. approve) 3 3 2"


section \<open>Basic facts about the loops\<close>

lemma join_from_no_value_error: "join_from i xs \<noteq> Inl (ValueError m)"
  by (induction i xs rule: join_from.induct) (auto split: sum.splits)

lemma attempt_loop_induct [case_names round]:
  assumes "\<And>(self :: AutomationWorkflow) task step appr a fb atts tr.
     (\<And>out rv. a \<le> max_step_iterations self \<Longrightarrow>
        execute_step self tr task step appr fb = Inr out \<Longrightarrow>
        review_step self (tr @ [ExecuteStep task step appr fb (Inr out)]) task step out a = Inr rv \<Longrightarrow>
        \<not> truthy (get rv ''approved'') \<Longrightarrow> \<not> truthy (get rv ''requires_replan'') \<Longrightarrow>
        P self task step appr (a + 1) (get rv ''feedback'')
          (atts @ [\<lparr>step_id = get step ''id'', step_of = step, output_of = out,
                     review = rv, attempt_of = a\<rparr>])
          (tr @ [ExecuteStep task step appr fb (Inr out), ReviewStep task step out a (Inr rv)]))
     \<Longrightarrow> P self task step appr a fb atts tr"
  shows "P (self :: AutomationWorkflow) task step appr a fb atts tr"
proof (induction self task step appr a fb atts tr rule: attempt_loop.induct)
  case (1 self task step appr a fb atts tr)
  show ?case
    by (rule assms) (rule "1.IH", auto)
qed

lemma attempt_loop_extends:
  "attempt_loop self task step appr a fb atts tr = (res, tr') \<Longrightarrow> \<exists>d. tr' = tr @ d"
proof (induction self task step appr a fb atts tr rule: attempt_loop_induct)
  case (round self task step appr a fb atts tr)
  from round.prems show ?case
    apply (subst (asm) attempt_loop.simps)
    apply (auto simp: Let_def split: if_splits sum.splits dest!: round.IH)
    done
qed

lemma attempt_loop_no_value_error:
  "fst (attempt_loop self task step appr a fb atts tr) \<noteq> Inl (ValueError m)"
proof (induction self task step appr a fb atts tr rule: attempt_loop_induct)
  case (round self task step appr a fb atts tr)
  show ?case
    apply (subst attempt_loop.simps)
    using round.IH apply (auto simp: Let_def split: if_splits sum.splits)
    done
qed

lemma step_loop_no_value_error:
  "fst (step_loop py self task steps idx allr appr tr) \<noteq> Inl (ValueError m)"
proof (induction steps arbitrary: idx allr appr tr)
  case Nil
  then show ?case by simp
next
  case (Cons raw rest)
  show ?case
    using Cons.IH attempt_loop_no_value_error
    apply (auto simp: Let_def split: if_splits sum.splits prod.splits)
    apply (metis fst_conv)+
    done
qed

lemma to_markdown_no_value_error: "to_markdown py r \<noteq> Inl (ValueError m)"
  by (simp add: to_markdown_def join_lines_def Let_def join_from_no_value_error)

lemma finalise_no_value_error:
  "fst (finalise py self task plan allr tr) \<noteq> Inl (ValueError m)"
  using to_markdown_no_value_error [of py _ m]
  by (auto simp: finalise_def write_report_def Let_def split: sum.splits option.splits prod.splits)

lemma finalise_first_event:
  "\<exists>d. snd (finalise py self task plan allr tr)
         = tr @ FinalReview task plan allr (final_review self tr task plan allr) # d
       \<and> (\<forall>e\<in>set d. \<not> is_execute_step e \<and> \<not> is_review_step e)"
  by (auto simp: finalise_def write_report_def Let_def split: sum.splits option.splits prod.splits)


lemma join_from_error: "join_from i xs = Inl e \<Longrightarrow> \<exists>m. e = TypeError m"
  by (induction i xs rule: join_from.induct) (auto split: sum.splits)

lemma to_markdown_error: "to_markdown py r = Inl e \<Longrightarrow> \<exists>m. e = TypeError m"
  unfolding to_markdown_def join_lines_def Let_def by (rule join_from_error)

lemma write_report_cases:
  "(\<exists>m. write_report py self r tr = (Inl (TypeError m), tr))
   \<or> (\<exists>x text. write_report py self r tr
         = (Inl (Propagated x), tr @ [WriteText (name (task_of r)) text (Inl x)]))
   \<or> (\<exists>text. to_markdown py r = Inr text \<and> write_text self tr (name (task_of r)) text = Inr ()
         \<and> write_report py self r tr = (Inr (), tr @ [WriteText (name (task_of r)) text (Inr ())]))"
proof (cases "to_markdown py r")
  case (Inl e)
  with to_markdown_error [OF Inl] show ?thesis
    by (auto simp: write_report_def)
next
  case (Inr md)
  then show ?thesis
    by (cases "write_text self tr (name (task_of r)) md") (simp_all add: write_report_def)
qed

lemma finalise_result:
  "(\<exists>r. fst (finalise py self task plan allr tr) = Inr (Some r, JNull)
         \<and> step_results r = allr \<and> plan_of r = plan \<and> task_of r = task)
   \<or> (\<exists>x. fst (finalise py self task plan allr tr) = Inl (Propagated x))
   \<or> (\<exists>m. fst (finalise py self task plan allr tr) = Inl (TypeError m))"
proof (cases "final_review self tr task plan allr")
  case (Inl x)
  then show ?thesis by (simp add: finalise_def)
next
  case (Inr summary)
  note fr = this
  show ?thesis
  proof (cases "coordinator self")
    case None
    show ?thesis
      using write_report_cases [of py self "\<lparr>task_of = task, plan_of = plan, step_results = allr,
              reviewer_summary = summary, coordinator_summary = None\<rparr>"
              "tr @ [FinalReview task plan allr (Inr summary)]"]
      by (auto simp: finalise_def fr None)
  next
    case (Some c)
    show ?thesis
    proof (cases "synthesise_outcome c (tr @ [FinalReview task plan allr (Inr summary)])
                    task plan allr summary")
      case (Inl x)
      then show ?thesis by (simp add: finalise_def fr Some)
    next
      case (Inr md)
      show ?thesis
        using write_report_cases [of py self "\<lparr>task_of = task, plan_of = plan,
              step_results = allr, reviewer_summary = summary,
              coordinator_summary = Some md\<rparr>"
              "tr @ [FinalReview task plan allr (Inr summary),
                     SynthesiseOutcome task plan allr summary (Inr md)]"]
        by (auto simp: finalise_def fr Some Inr)
    qed
  qed
qed

lemma finalise_returns:
  assumes "final_review self tr task plan allr = Inr summary"
    and "(coordinator self = None \<and> narrative = None
            \<and> tr2 = tr @ [FinalReview task plan allr (Inr summary)])
         \<or> (\<exists>c t. coordinator self = Some c
              \<and> synthesise_outcome c (tr @ [FinalReview task plan allr (Inr summary)])
                    task plan allr summary = Inr t
              \<and> narrative = Some t
              \<and> tr2 = tr @ [FinalReview task plan allr (Inr summary),
                            SynthesiseOutcome task plan allr summary (Inr t)])"
    and "to_markdown py \<lparr>task_of = task, plan_of = plan, step_results = allr,
            reviewer_summary = summary, coordinator_summary = narrative\<rparr> = Inr text"
    and "write_text self tr2 (name task) text = Inr ()"
  shows "finalise py self task plan allr tr
         = (Inr (Some \<lparr>task_of = task, plan_of = plan, step_results = allr,
                        reviewer_summary = summary, coordinator_summary = narrative\<rparr>, JNull),
            tr2 @ [WriteText (name task) text (Inr ())])"
  using assms by (auto simp: finalise_def write_report_def)


lemma demo_md: "to_markdown interp demo_result = Inr (''# Task Report: t1'' @ [CHR 0x0A, CHR 0x0A] @ ''**Objective:** demo'' @ [CHR 0x0A, CHR 0x0A] @ ''## Plan Overview'' @ [CHR 0x0A] @ ''o'' @ [CHR 0x0A, CHR 0x0A]
  @ ''## Execution Timeline'' @ [CHR 0x0A] @ ''No steps were executed.'' @ [CHR 0x0A, CHR 0x0A] @ ''## Reviewer Verdict'' @ [CHR 0x0A] @ ''ok'' @ [CHR 0x0A])"
  by code_simp

subsection \<open>What follows a step review\<close>

lemma attempt_loop_head:
  assumes "attempt_loop self task step appr a fb atts tr = (res, tr @ d)"
  shows "(a \<le> max_step_iterations self \<longrightarrow> (\<exists>r d3. d = ExecuteStep task step appr fb r # d3))
       \<and> (\<not> a \<le> max_step_iterations self \<longrightarrow> d = [] \<and> res = Inr (atts, appr, False))"
proof (cases "a \<le> max_step_iterations self")
  case False
  with assms show ?thesis
    by (subst (asm) attempt_loop.simps) simp
next
  case True
  define r where "r = execute_step self tr task step appr fb"
  obtain res' tr' where run: "attempt_loop self task step appr a fb atts tr = (res', tr')"
    by fastforce
  have "\<exists>d3. tr' = tr @ ExecuteStep task step appr fb r # d3"
    using run True
    apply (subst (asm) attempt_loop.simps)
    apply (auto simp: Let_def r_def split: sum.splits if_splits dest!: attempt_loop_extends)
    done
  with run assms True show ?thesis by auto
qed

lemma attempt_loop_next:
  assumes "attempt_loop self task step appr a0 fb0 atts tr = (res, tr @ d)"
    and "d = d1 @ ReviewStep t s out a (Inr rv) # d2"
  shows "t = task \<and> s = step \<and> a0 \<le> a \<and> a \<le> max_step_iterations self
       \<and> (\<exists>d0 fb. d1 = d0 @ [ExecuteStep task step appr fb (Inr out)])
       \<and> (truthy (get rv ''approved'') \<longrightarrow>
            d2 = [] \<and> (\<exists>atts'. res = Inr (atts' @ [step_result step out rv a],
                                          appr @ [step_result step out rv a], False)))
       \<and> (\<not> truthy (get rv ''approved'') \<and> truthy (get rv ''requires_replan'') \<longrightarrow>
            d2 = [] \<and> (\<exists>atts'. res = Inr (atts' @ [step_result step out rv a], appr, True)))
       \<and> (\<not> truthy (get rv ''approved'') \<and> \<not> truthy (get rv ''requires_replan'')
            \<and> a < max_step_iterations self \<longrightarrow>
            (\<exists>r d3. d2 = ExecuteStep task step appr (get rv ''feedback'') r # d3))
       \<and> (\<not> truthy (get rv ''approved'') \<and> \<not> truthy (get rv ''requires_replan'')
            \<and> \<not> a < max_step_iterations self \<longrightarrow>
            d2 = [] \<and> (\<exists>atts'. res = Inr (atts' @ [step_result step out rv a], appr, False)))"
  using assms
proof (induction self task step appr a0 fb0 atts tr arbitrary: d d1
         rule: attempt_loop_induct)
  case (round self task step appr a0 fb0 atts tr)
  note run = round.prems(1) and split = round.prems(2)
  show ?case
  proof (cases "a0 \<le> max_step_iterations self")
    case False
    with run have "d = []"
      by (subst (asm) attempt_loop.simps) simp
    with split show ?thesis by simp
  next
    case le: True
    show ?thesis
    proof (cases "execute_step self tr task step appr fb0")
      case (Inl x)
      with run le have "d = [ExecuteStep task step appr fb0 (Inl x)]"
        by (subst (asm) attempt_loop.simps) (simp add: Let_def)
      with split show ?thesis
        by (cases d1) simp_all
    next
      case ex: (Inr out0)
      let ?E = "ExecuteStep task step appr fb0 (Inr out0)"
      show ?thesis
      proof (cases "review_step self (tr @ [?E]) task step out0 a0")
        case (Inl x)
        with run le ex have "d = [?E, ReviewStep task step out0 a0 (Inl x)]"
          by (subst (asm) attempt_loop.simps) (simp add: Let_def)
        with split show ?thesis
          by (cases d1; cases "tl d1") auto
      next
        case rvw: (Inr rv0)
        let ?R = "ReviewStep task step out0 a0 (Inr rv0)"
        let ?sr = "step_result step out0 rv0 a0"
        consider (appr) "truthy (get rv0 ''approved'')"
          | (replan) "\<not> truthy (get rv0 ''approved'')" "truthy (get rv0 ''requires_replan'')"
          | (retry) "\<not> truthy (get rv0 ''approved'')" "\<not> truthy (get rv0 ''requires_replan'')"
          by blast
        then show ?thesis
        proof cases
          case appr
          with run le ex rvw have "d = [?E, ?R]"
            and "res = Inr (atts @ [?sr], appr @ [?sr], False)"
            by (subst (asm) attempt_loop.simps, simp add: Let_def step_result_def)+
          with split appr le show ?thesis
            by (cases d1; cases "tl d1") auto
        next
          case replan
          with run le ex rvw have "d = [?E, ?R]"
            and "res = Inr (atts @ [?sr], appr, True)"
            by (subst (asm) attempt_loop.simps, simp add: Let_def step_result_def)+
          with split replan le show ?thesis
            by (cases d1; cases "tl d1") auto
        next
          case retry
          with run le ex rvw
          have rec: "attempt_loop self task step appr (a0 + 1) (get rv0 ''feedback'')
                       (atts @ [?sr]) (tr @ [?E, ?R]) = (res, tr @ d)"
            by (subst (asm) attempt_loop.simps) (simp add: Let_def step_result_def)
          from attempt_loop_extends [OF rec] obtain d' where d': "d = ?E # ?R # d'"
            by auto
          from rec d' have rec': "attempt_loop self task step appr (a0 + 1) (get rv0 ''feedback'')
                       (atts @ [?sr]) (tr @ [?E, ?R]) = (res, (tr @ [?E, ?R]) @ d')"
            by simp
          note hd = attempt_loop_head [OF rec']
          from split d' consider (here) "d1 = [?E]" "t = task" "s = step" "out = out0" "a = a0"
              "rv = rv0" "d2 = d'"
            | (later) d1' where "d1 = ?E # ?R # d1'" "d' = d1' @ ReviewStep t s out a (Inr rv) # d2"
            by (cases d1; cases "tl d1") auto
          then show ?thesis
          proof cases
            case here
            with hd retry le show ?thesis
              by auto
          next
            case later
            have ih: "t = task \<and> s = step \<and> a0 + 1 \<le> a \<and> a \<le> max_step_iterations self
       \<and> (\<exists>d0 fb. d1' = d0 @ [ExecuteStep task step appr fb (Inr out)])
       \<and> (truthy (get rv ''approved'') \<longrightarrow>
            d2 = [] \<and> (\<exists>atts'. res = Inr (atts' @ [step_result step out rv a],
                                          appr @ [step_result step out rv a], False)))
       \<and> (\<not> truthy (get rv ''approved'') \<and> truthy (get rv ''requires_replan'') \<longrightarrow>
            d2 = [] \<and> (\<exists>atts'. res = Inr (atts' @ [step_result step out rv a], appr, True)))
       \<and> (\<not> truthy (get rv ''approved'') \<and> \<not> truthy (get rv ''requires_replan'')
            \<and> a < max_step_iterations self \<longrightarrow>
            (\<exists>r d3. d2 = ExecuteStep task step appr (get rv ''feedback'') r # d3))
       \<and> (\<not> truthy (get rv ''approved'') \<and> \<not> truthy (get rv ''requires_replan'')
            \<and> \<not> a < max_step_iterations self \<longrightarrow>
            d2 = [] \<and> (\<exists>atts'. res = Inr (atts' @ [step_result step out rv a], appr, False)))"
              by (rule round.IH [OF le ex rvw retry, unfolded step_result_def [symmetric], OF rec' later(2)])
            from ih obtain d0 fb where "d1' = d0 @ [ExecuteStep task step appr fb (Inr out)]"
              by blast
            with later have "d1 = (?E # ?R # d0) @ [ExecuteStep task step appr fb (Inr out)]"
              by simp
            then have "\<exists>d0 fb. d1 = d0 @ [ExecuteStep task step appr fb (Inr out)]"
              by blast
            with ih show ?thesis
              by (simp del: append_eq_append_conv)
          qed
        qed
      qed
    qed
  qed
qed

lemma split_at:
  assumes "xs @ ys = d1 @ e # d2"
  shows "(\<exists>zs. xs = d1 @ e # zs \<and> d2 = zs @ ys) \<or> (\<exists>zs. d1 = xs @ zs \<and> ys = zs @ e # d2)"
  using assms by (auto simp: append_eq_append_conv2 append_eq_Cons_conv)

lemma step_loop_extends:
  "step_loop py self task steps idx allr appr tr = (res, tr') \<Longrightarrow> \<exists>d. tr' = tr @ d"
proof (induction steps arbitrary: idx allr appr tr)
  case Nil
  then show ?case by simp
next
  case (Cons raw rest)
  from Cons.prems show ?case
    apply (simp add: Let_def split: sum.splits prod.splits if_splits)
    apply (auto dest!: attempt_loop_extends Cons.IH)
    done
qed

lemma step_loop_Cons:
  assumes "py_dict py raw = Inr d0"
    and "step = setdefault d0 ''id'' (JStr (''step-'' @ str_int idx))"
    and "attempt_loop self task step appr 1 JNull [] tr = (ra, tr1)"
  shows "step_loop py self task (raw # rest) idx allr appr tr =
     (case ra of
        Inl e \<Rightarrow> (Inl e, tr1)
      | Inr (atts, appr', flag) \<Rightarrow>
          if flag then
            (Inr (ReplanRequested (if atts \<noteq> [] then get (review (last atts)) ''feedback''
                                   else JNull)), tr1)
          else if atts = [] \<or> \<not> truthy (get (review (last atts)) ''approved'') then
            (Inl (RuntimeError (step_bound_message py self step)), tr1)
          else step_loop py self task rest (idx + 1) (allr @ atts) appr' tr1)"
  using assms by (simp add: Let_def step_bound_message_def split: sum.splits)

lemma step_loop_head:
  assumes "step_loop py self task steps idx allr appr tr = (res, tr @ d)"
    and "1 \<le> max_step_iterations self"
  shows "(steps = [] \<and> d = [] \<and> res = Inr (AllApproved allr))
       \<or> (\<exists>x. d = [] \<and> res = Inl (Propagated x))
       \<or> (\<exists>s r d3. d = ExecuteStep task s appr JNull r # d3)"
proof (cases steps)
  case Nil
  with assms show ?thesis by simp
next
  case (Cons raw rest)
  show ?thesis
  proof (cases "py_dict py raw")
    case (Inl x)
    with assms Cons show ?thesis by auto
  next
    case (Inr d0)
    define step where "step = setdefault d0 ''id'' (JStr (''step-'' @ str_int idx))"
    obtain ra tr1 where att: "attempt_loop self task step appr 1 JNull [] tr = (ra, tr1)"
      by fastforce
    from attempt_loop_extends [OF att] obtain da where da: "tr1 = tr @ da" by blast
    from attempt_loop_head [OF att [unfolded da]] assms(2)
    obtain r d3 where d3: "da = ExecuteStep task step appr JNull r # d3" by blast
    obtain dr where "tr @ d = tr1 @ dr"
      using assms(1) [unfolded Cons step_loop_Cons [OF Inr step_def att]]
      by (auto split: sum.splits prod.splits if_splits dest!: step_loop_extends)
    with da d3 show ?thesis by simp
  qed
qed

lemma step_loop_next:
  assumes "step_loop py self task steps idx allr appr tr = (res, tr @ d)"
    and "d = d1 @ ReviewStep t s out a (Inr rv) # d2"
  shows "t = task \<and> 1 \<le> a \<and> a \<le> max_step_iterations self
       \<and> (\<exists>d0 p fb. d1 = d0 @ [ExecuteStep task s p fb (Inr out)]
          \<and> (truthy (get rv ''approved'') \<longrightarrow>
               (d2 = [] \<and> ((\<exists>allr'. res = Inr (AllApproved (allr' @ [step_result s out rv a])))
                           \<or> (\<exists>x. res = Inl (Propagated x))))
               \<or> (\<exists>s' r d3. d2 = ExecuteStep task s' (p @ [step_result s out rv a]) JNull r # d3))
          \<and> (\<not> truthy (get rv ''approved'') \<and> \<not> truthy (get rv ''requires_replan'')
               \<and> a < max_step_iterations self \<longrightarrow>
               (\<exists>r d3. d2 = ExecuteStep task s p (get rv ''feedback'') r # d3)))
       \<and> (\<not> truthy (get rv ''approved'') \<and> truthy (get rv ''requires_replan'') \<longrightarrow>
            d2 = [] \<and> res = Inr (ReplanRequested (get rv ''feedback'')))
       \<and> (\<not> truthy (get rv ''approved'') \<and> \<not> truthy (get rv ''requires_replan'')
            \<and> \<not> a < max_step_iterations self \<longrightarrow>
            d2 = [] \<and> res = Inl (RuntimeError (step_bound_message py self s)))"
  using assms
proof (induction steps arbitrary: idx allr appr tr d d1)
  case Nil
  then show ?case by simp
next
  case (Cons raw rest)
  note run = Cons.prems(1) and split = Cons.prems(2)
  show ?case
  proof (cases "py_dict py raw")
    case (Inl x)
    with run split show ?thesis by simp
  next
    case (Inr d0)
    define step where "step = setdefault d0 ''id'' (JStr (''step-'' @ str_int idx))"
    obtain ra tr1 where att0: "attempt_loop self task step appr 1 JNull [] tr = (ra, tr1)"
      by fastforce
    from attempt_loop_extends [OF att0] obtain da where da: "tr1 = tr @ da" by blast
    note att = att0 [unfolded da]
    note nxt = attempt_loop_next [OF att]
    note run' = run [unfolded step_loop_Cons [OF Inr step_def att0]]
    have stop: ?thesis if "d = da" and
        r1: "\<And>atts'. ra = Inr (atts' @ [step_result step out rv a],
                                   appr @ [step_result step out rv a], False)
                   \<Longrightarrow> truthy (get rv ''approved'') \<Longrightarrow> False"
        and r2: "\<And>atts'. ra = Inr (atts' @ [step_result step out rv a], appr, True)
                   \<Longrightarrow> res = Inr (ReplanRequested (get rv ''feedback''))"
        and r3: "\<And>atts'. ra = Inr (atts' @ [step_result step out rv a], appr, False)
                   \<Longrightarrow> \<not> truthy (get rv ''approved'')
                   \<Longrightarrow> res = Inl (RuntimeError (step_bound_message py self step))"
    proof -
      from that(1) split have sp: "da = d1 @ ReviewStep t s out a (Inr rv) # d2" by simp
      note n = nxt [OF sp]
      from n have s: "s = step" and t: "t = task" by blast+
      from n obtain d0' fb where d0': "d1 = d0' @ [ExecuteStep task s appr fb (Inr out)]"
        using s by blast
      show ?thesis
        apply (intro conjI)
        using n apply blast
        using n apply linarith
        using n apply blast
          apply (rule exI [of _ d0'], rule exI [of _ appr], rule exI [of _ fb])
        using n d0' r1 s apply blast
        using n r2 s apply blast
        using n r3 s apply blast
        done
    qed
    show ?thesis
    proof (cases ra)
      case (Inl e)
      with run' have "d = da" "res = Inl e"
        by (simp_all add: da)
      with Inl show ?thesis
        by (intro stop) simp_all
    next
      case ok: (Inr trip)
      obtain atts appr' flag where trip: "trip = (atts, appr', flag)"
        by (cases trip) auto
      consider (replan) "flag"
        | (bound) "\<not> flag" "atts = [] \<or> \<not> truthy (get (review (last atts)) ''approved'')"
        | (go) "\<not> flag" "atts \<noteq> []" "truthy (get (review (last atts)) ''approved'')"
        by blast
      then show ?thesis
      proof cases
        case replan
        with run' ok trip have "d = da"
          and "res = Inr (ReplanRequested (if atts \<noteq> [] then get (review (last atts)) ''feedback''
                                            else JNull))"
          by (simp_all add: da)
        with ok trip replan show ?thesis
          by (intro stop) (auto simp: step_result_def)
      next
        case bound
        with run' ok trip have "d = da"
          and "res = Inl (RuntimeError (step_bound_message py self step))"
          by (auto simp add: da)
        with ok trip bound show ?thesis
          by (intro stop) (auto simp: step_result_def)
      next
        case go
        with run' ok trip
        have rec0: "step_loop py self task rest (idx + 1) (allr @ atts) appr' tr1 = (res, tr @ d)"
          by simp
        from step_loop_extends [OF rec0] da obtain dr where dr: "d = da @ dr"
          by auto
        note rec = rec0 [unfolded da dr append_assoc [symmetric]]
        from split_at [OF split [unfolded dr]]
        consider (here) zs where "da = d1 @ ReviewStep t s out a (Inr rv) # zs" "d2 = zs @ dr"
          | (later) zs where "d1 = da @ zs" "dr = zs @ ReviewStep t s out a (Inr rv) # d2"
          by blast
        then show ?thesis
        proof cases
          case later
          from Cons.IH [OF rec later(2)] later(1) show ?thesis
            by (auto simp del: append_eq_append_conv)
        next
          case here
          note n = nxt [OF here(1)]
          from n have s: "s = step" and t: "t = task" and a: "1 \<le> a" "a \<le> max_step_iterations self"
            by simp_all
          from n obtain d0' fb where d0': "d1 = d0' @ [ExecuteStep task s appr fb (Inr out)]"
            using s by blast
          have A: "(d2 = [] \<and> ((\<exists>allr'. res = Inr (AllApproved (allr' @ [step_result s out rv a])))
                           \<or> (\<exists>x. res = Inl (Propagated x))))
               \<or> (\<exists>s' r d3. d2 = ExecuteStep task s' (appr @ [step_result s out rv a]) JNull r # d3)"
            if ap: "truthy (get rv ''approved'')"
          proof -
            from n ap obtain atts' where zs: "zs = []"
              and ra: "ra = Inr (atts' @ [step_result step out rv a],
                                 appr @ [step_result step out rv a], False)"
              by blast
            from ra ok trip have e: "atts = atts' @ [step_result s out rv a]"
              "appr' = appr @ [step_result s out rv a]"
              by (simp_all add: s)
            from a have "1 \<le> max_step_iterations self" by simp
            from step_loop_head [OF rec this] here(2) zs e show ?thesis
              by (auto simp del: append_assoc simp: append_assoc [symmetric])
          qed
          have B: "\<exists>r d3. d2 = ExecuteStep task s appr (get rv ''feedback'') r # d3"
            if "\<not> truthy (get rv ''approved'')" "\<not> truthy (get rv ''requires_replan'')"
               "a < max_step_iterations self"
            using n that here(2) s by auto
          have C: False
            if "\<not> truthy (get rv ''approved'')"
              "truthy (get rv ''requires_replan'') \<or> \<not> a < max_step_iterations self"
            using n that ok trip go s by (auto simp: step_result_def)
          show ?thesis
            apply (intro conjI)
            using t apply blast
            using a apply blast
            using a apply blast
              apply (rule exI [of _ d0'], rule exI [of _ appr], rule exI [of _ fb])
            using d0' A B apply blast
            using C apply blast
            using C apply blast
            done
        qed
      qed
    qed
  qed
qed

subsection \<open>The planning loop, unfolded\<close>

lemma plan_loop_induct [case_names iteration]:
  assumes "\<And>py (self :: AutomationWorkflow) task n fb prev tr.
     (\<And>plan prv. n < max_plan_iterations self \<Longrightarrow>
        propose_plan self tr task fb prev = Inr plan \<Longrightarrow>
        review_plan self (tr @ [ProposePlan task fb prev (Inr plan)]) task plan (n + 1) = Inr prv \<Longrightarrow>
        \<not> truthy (get prv ''approved'') \<Longrightarrow>
        P py self task (n + 1) (get prv ''feedback'') (Some plan)
          (tr @ [ProposePlan task fb prev (Inr plan), ReviewPlan task plan (n + 1) (Inr prv)]))
     \<Longrightarrow>
     (\<And>plan prv fb' tr2. n < max_plan_iterations self \<Longrightarrow>
        propose_plan self tr task fb prev = Inr plan \<Longrightarrow>
        review_plan self (tr @ [ProposePlan task fb prev (Inr plan)]) task plan (n + 1) = Inr prv \<Longrightarrow>
        truthy (get prv ''approved'') \<Longrightarrow>
        execute_plan py self task plan
          (tr @ [ProposePlan task fb prev (Inr plan), ReviewPlan task plan (n + 1) (Inr prv)])
          = (Inr (None, fb'), tr2) \<Longrightarrow>
        1 \<le> max_replan_attempts self \<Longrightarrow>
        P py self task (n + 1) (if truthy fb' then fb' else replan_default) (Some plan) tr2)
     \<Longrightarrow> P py self task n fb prev tr"
  shows "P py (self :: AutomationWorkflow) task n fb prev tr"
proof (induction py self task n fb prev tr rule: plan_loop.induct)
  case (1 py self task n fb prev tr)
  show ?case
  proof (rule assms)
    fix plan prv
    assume "n < max_plan_iterations self" "propose_plan self tr task fb prev = Inr plan"
      "review_plan self (tr @ [ProposePlan task fb prev (Inr plan)]) task plan (n + 1) = Inr prv"
      "\<not> truthy (get prv ''approved'')"
    then show "P py self task (n + 1) (get prv ''feedback'') (Some plan)
          (tr @ [ProposePlan task fb prev (Inr plan), ReviewPlan task plan (n + 1) (Inr prv)])"
      by (intro "1.IH"(1)) simp_all
  next
    fix plan prv fb' tr2
    assume "n < max_plan_iterations self" "propose_plan self tr task fb prev = Inr plan"
      "review_plan self (tr @ [ProposePlan task fb prev (Inr plan)]) task plan (n + 1) = Inr prv"
      "truthy (get prv ''approved'')"
      "execute_plan py self task plan
          (tr @ [ProposePlan task fb prev (Inr plan), ReviewPlan task plan (n + 1) (Inr prv)])
          = (Inr (None, fb'), tr2)"
      "1 \<le> max_replan_attempts self"
    then show "P py self task (n + 1) (if truthy fb' then fb' else replan_default) (Some plan) tr2"
      using "1.IH"(2) [of "n + 1" "Inr plan" "tr @ [ProposePlan task fb prev (Inr plan)]" plan
          "Inr prv"
          "tr @ [ProposePlan task fb prev (Inr plan), ReviewPlan task plan (n + 1) (Inr prv)]"
          prv 0 "Inr (None, fb')" tr2 "(None, fb')" None fb' 1]
      by (auto simp: replan_default_def split: if_splits)
  qed
qed

lemma plan_loop_stop:
  "\<not> n < max_plan_iterations self \<Longrightarrow>
   plan_loop py self task n fb prev tr
   = (Inl (RuntimeError (''Exceeded maximum plan attempts for task ''
                          @ [CHR 0x27] @ name task @ [CHR 0x27] @ ''.'')), tr)"
  by (subst plan_loop.simps) simp

lemma plan_loop_propose_fails:
  "n < max_plan_iterations self \<Longrightarrow> propose_plan self tr task fb prev = Inl x \<Longrightarrow>
   plan_loop py self task n fb prev tr
   = (Inl (Propagated x), tr @ [ProposePlan task fb prev (Inl x)])"
  by (subst plan_loop.simps) (simp add: Let_def)

lemma plan_loop_review_fails:
  "n < max_plan_iterations self \<Longrightarrow> propose_plan self tr task fb prev = Inr plan \<Longrightarrow>
   review_plan self (tr @ [ProposePlan task fb prev (Inr plan)]) task plan (n + 1) = Inl x \<Longrightarrow>
   plan_loop py self task n fb prev tr
   = (Inl (Propagated x),
      tr @ [ProposePlan task fb prev (Inr plan), ReviewPlan task plan (n + 1) (Inl x)])"
  by (subst plan_loop.simps) (simp add: Let_def)

lemma plan_loop_rejected:
  "n < max_plan_iterations self \<Longrightarrow> propose_plan self tr task fb prev = Inr plan \<Longrightarrow>
   review_plan self (tr @ [ProposePlan task fb prev (Inr plan)]) task plan (n + 1) = Inr prv \<Longrightarrow>
   \<not> truthy (get prv ''approved'') \<Longrightarrow>
   plan_loop py self task n fb prev tr
   = plan_loop py self task (n + 1) (get prv ''feedback'') (Some plan)
       (tr @ [ProposePlan task fb prev (Inr plan), ReviewPlan task plan (n + 1) (Inr prv)])"
  by (subst plan_loop.simps) (simp add: Let_def)

lemma plan_loop_approved:
  "n < max_plan_iterations self \<Longrightarrow> propose_plan self tr task fb prev = Inr plan \<Longrightarrow>
   review_plan self (tr @ [ProposePlan task fb prev (Inr plan)]) task plan (n + 1) = Inr prv \<Longrightarrow>
   truthy (get prv ''approved'') \<Longrightarrow>
   execute_plan py self task plan
     (tr @ [ProposePlan task fb prev (Inr plan), ReviewPlan task plan (n + 1) (Inr prv)])
     = (re, tr2) \<Longrightarrow>
   plan_loop py self task n fb prev tr
   = (case re of
        Inl e \<Rightarrow> (Inl e, tr2)
      | Inr (Some run_result, fb') \<Rightarrow> (Inr run_result, tr2)
      | Inr (None, fb') \<Rightarrow>
          if 1 \<le> max_replan_attempts self then
            plan_loop py self task (n + 1) (if truthy fb' then fb' else replan_default)
              (Some plan) tr2
          else
            (Inl (RuntimeError (''Exceeded maximum execution replans for task ''
                                 @ [CHR 0x27] @ name task @ [CHR 0x27] @ ''.'')), tr2))"
  by (subst plan_loop.simps)
     (auto simp add: Let_def replan_default_def split: sum.splits option.splits)

subsection \<open>What follows a step review, seen from the plan execution\<close>

lemma execute_plan_steps:
  assumes "execute_plan py self task plan tr = (res, tr')"
  shows "(\<not> (\<exists>xs. (if truthy (get plan ''steps'') then get plan ''steps'' else JList []) = JList xs)
          \<and> tr' = tr
          \<and> res = Inl (ValueError ''Planner response must contain a 'steps' array.''))
       \<or> (\<exists>xs rs tr1.
            (if truthy (get plan ''steps'') then get plan ''steps'' else JList []) = JList xs
            \<and> step_loop py self task xs 1 [] [] tr = (rs, tr1)
            \<and> (case rs of
                  Inl e \<Rightarrow> res = Inl e \<and> tr' = tr1
                | Inr (ReplanRequested fb) \<Rightarrow> res = Inr (None, fb) \<and> tr' = tr1
                | Inr (AllApproved allr) \<Rightarrow> finalise py self task plan allr tr1 = (res, tr')))"
proof (cases "if truthy (get plan ''steps'') then get plan ''steps'' else JList []")
  case (JList xs)
  obtain rs tr1 where sl: "step_loop py self task xs 1 [] [] tr = (rs, tr1)"
    by fastforce
  from assms have "case rs of
                  Inl e \<Rightarrow> res = Inl e \<and> tr' = tr1
                | Inr (ReplanRequested fb) \<Rightarrow> res = Inr (None, fb) \<and> tr' = tr1
                | Inr (AllApproved allr) \<Rightarrow> finalise py self task plan allr tr1 = (res, tr')"
    unfolding execute_plan_def Let_def JList using sl
    by (auto split: sum.splits steps_outcome.splits)
  with JList sl show ?thesis by blast
qed (use assms in \<open>auto simp: execute_plan_def Let_def\<close>)

lemma finalise_extends:
  "finalise py self task plan allr tr = (res, tr') \<Longrightarrow> \<exists>d. tr' = tr @ d"
  using finalise_first_event [of py self task plan allr tr] by auto

lemma execute_plan_extends:
  assumes "execute_plan py self task plan tr = (res, tr')"
  shows "\<exists>d. tr' = tr @ d"
proof -
  from execute_plan_steps [OF assms]
  consider "tr' = tr"
    | xs rs tr1 where "step_loop py self task xs 1 [] [] tr = (rs, tr1)"
        "case rs of
                  Inl e \<Rightarrow> res = Inl e \<and> tr' = tr1
                | Inr (ReplanRequested fb) \<Rightarrow> res = Inr (None, fb) \<and> tr' = tr1
                | Inr (AllApproved allr) \<Rightarrow> finalise py self task plan allr tr1 = (res, tr')"
    by blast
  then show ?thesis
  proof cases
    case 1
    then show ?thesis by simp
  next
    case 2
    from step_loop_extends [OF 2(1)] obtain ds where ds: "tr1 = tr @ ds" by blast
    show ?thesis
    proof (cases rs)
      case (Inl e)
      with 2(2) ds show ?thesis by simp
    next
      case (Inr oc)
      show ?thesis
      proof (cases oc)
        case (ReplanRequested fb)
        with Inr 2(2) ds show ?thesis by simp
      next
        case (AllApproved allr)
        with Inr 2(2) have "finalise py self task plan allr tr1 = (res, tr')" by simp
        from finalise_extends [OF this] ds show ?thesis by auto
      qed
    qed
  qed
qed

lemma execute_plan_next:
  assumes "execute_plan py self task plan tr = (res, tr @ d)"
    and "d = d1 @ ReviewStep t s out a (Inr rv) # d2"
  shows "t = task \<and> 1 \<le> a \<and> a \<le> max_step_iterations self
       \<and> (\<exists>d0 p fb. d1 = d0 @ [ExecuteStep task s p fb (Inr out)]
          \<and> (truthy (get rv ''approved'') \<longrightarrow>
               (d2 = [] \<and> (\<exists>x. res = Inl (Propagated x)))
               \<or> (\<exists>s' r d3. d2 = ExecuteStep task s' (p @ [step_result s out rv a]) JNull r # d3)
               \<or> (\<exists>allr r d3. d2 = FinalReview task plan (allr @ [step_result s out rv a]) r # d3))
          \<and> (\<not> truthy (get rv ''approved'') \<and> \<not> truthy (get rv ''requires_replan'')
               \<and> a < max_step_iterations self \<longrightarrow>
               (\<exists>r d3. d2 = ExecuteStep task s p (get rv ''feedback'') r # d3)))
       \<and> (\<not> truthy (get rv ''approved'') \<and> truthy (get rv ''requires_replan'') \<longrightarrow>
            d2 = [] \<and> res = Inr (None, get rv ''feedback''))
       \<and> (\<not> truthy (get rv ''approved'') \<and> \<not> truthy (get rv ''requires_replan'')
            \<and> \<not> a < max_step_iterations self \<longrightarrow>
            d2 = [] \<and> res = Inl (RuntimeError (step_bound_message py self s)))"
proof -
  from execute_plan_steps [OF assms(1)] assms(2)
  obtain xs rs tr1 where sl0: "step_loop py self task xs 1 [] [] tr = (rs, tr1)"
    and rs: "case rs of
                  Inl e \<Rightarrow> res = Inl e \<and> tr @ d = tr1
                | Inr (ReplanRequested fb) \<Rightarrow> res = Inr (None, fb) \<and> tr @ d = tr1
                | Inr (AllApproved allr) \<Rightarrow> finalise py self task plan allr tr1 = (res, tr @ d)"
    by auto
  from step_loop_extends [OF sl0] obtain ds where ds: "tr1 = tr @ ds" by blast
  note sl = sl0 [unfolded ds]
  have direct: ?thesis if "d = ds" and "\<And>allr. rs \<noteq> Inr (AllApproved allr)"
    and "\<And>fb. rs = Inr (ReplanRequested fb) \<Longrightarrow> res = Inr (None, fb)"
    and "\<And>e. rs = Inl e \<Longrightarrow> res = Inl e"
  proof -
    note n = step_loop_next [OF sl assms(2) [unfolded that(1)]]
    from n obtain d0 p fb where d0: "d1 = d0 @ [ExecuteStep task s p fb (Inr out)]"
      and ap: "truthy (get rv ''approved'') \<longrightarrow>
               (d2 = [] \<and> ((\<exists>allr'. rs = Inr (AllApproved (allr' @ [step_result s out rv a])))
                           \<or> (\<exists>x. rs = Inl (Propagated x))))
               \<or> (\<exists>s' r d3. d2 = ExecuteStep task s' (p @ [step_result s out rv a]) JNull r # d3)"
      and re: "\<not> truthy (get rv ''approved'') \<and> \<not> truthy (get rv ''requires_replan'')
               \<and> a < max_step_iterations self \<longrightarrow>
               (\<exists>r d3. d2 = ExecuteStep task s p (get rv ''feedback'') r # d3)"
      by blast
    show ?thesis
      apply (intro conjI)
      using n apply blast
      using n apply blast
      using n apply blast
        apply (rule exI [of _ d0], rule exI [of _ p], rule exI [of _ fb])
      using d0 ap re that(2,4) apply blast
      using n that(3) apply blast
      using n that(4) apply blast
      done
  qed
  show ?thesis
  proof (cases rs)
    case (Inl e)
    with rs ds show ?thesis
      by (intro direct) auto
  next
    case (Inr oc)
    show ?thesis
    proof (cases oc)
      case (ReplanRequested fb)
      with Inr rs ds show ?thesis
        by (intro direct) auto
    next
      case (AllApproved allr)
      with Inr rs ds have fin: "finalise py self task plan allr (tr @ ds) = (res, tr @ d)"
        by simp
      from finalise_first_event [of py self task plan allr "tr @ ds"] fin
      obtain r df where df: "d = ds @ FinalReview task plan allr r # df"
        and nodf: "\<forall>e\<in>set df. \<not> is_review_step e"
        by auto
      from split_at [OF assms(2) [unfolded df]]
      consider (here) zs where "ds = d1 @ ReviewStep t s out a (Inr rv) # zs"
          "d2 = zs @ FinalReview task plan allr r # df"
        | (later) zs where "FinalReview task plan allr r # df = zs @ ReviewStep t s out a (Inr rv) # d2"
        by blast
      then show ?thesis
      proof cases
        case later
        then have "ReviewStep t s out a (Inr rv) \<in> set (FinalReview task plan allr r # df)"
          by simp
        with nodf show ?thesis by auto
      next
        case here
        note n = step_loop_next [OF sl here(1)]
        from n obtain d0 p fb where d0: "d1 = d0 @ [ExecuteStep task s p fb (Inr out)]"
          and ap: "truthy (get rv ''approved'') \<longrightarrow>
               (zs = [] \<and> ((\<exists>allr'. rs = Inr (AllApproved (allr' @ [step_result s out rv a])))
                           \<or> (\<exists>x. rs = Inl (Propagated x))))
               \<or> (\<exists>s' r d3. zs = ExecuteStep task s' (p @ [step_result s out rv a]) JNull r # d3)"
          and re: "\<not> truthy (get rv ''approved'') \<and> \<not> truthy (get rv ''requires_replan'')
               \<and> a < max_step_iterations self \<longrightarrow>
               (\<exists>r d3. zs = ExecuteStep task s p (get rv ''feedback'') r # d3)"
          by blast
        have A: "(d2 = [] \<and> (\<exists>x. res = Inl (Propagated x)))
               \<or> (\<exists>s' r d3. d2 = ExecuteStep task s' (p @ [step_result s out rv a]) JNull r # d3)
               \<or> (\<exists>allr r d3. d2 = FinalReview task plan (allr @ [step_result s out rv a]) r # d3)"
          if "truthy (get rv ''approved'')"
          using ap that here(2) Inr AllApproved by auto
        have B: "\<exists>r d3. d2 = ExecuteStep task s p (get rv ''feedback'') r # d3"
          if "\<not> truthy (get rv ''approved'')" "\<not> truthy (get rv ''requires_replan'')"
            "a < max_step_iterations self"
          using re that here(2) by auto
        have C: False
          if "\<not> truthy (get rv ''approved'')"
            "truthy (get rv ''requires_replan'') \<or> \<not> a < max_step_iterations self"
          using n that Inr AllApproved by auto
        show ?thesis
          apply (intro conjI)
          using n apply blast
          using n apply blast
          using n apply blast
            apply (rule exI [of _ d0], rule exI [of _ p], rule exI [of _ fb])
          using d0 A B apply blast
          using C apply blast
          using C apply blast
          done
      qed
    qed
  qed
qed

subsection \<open>The log of the step loops\<close>

lemma results_of_simps [simp]:
  "results_of [] = []"
  "results_of (e # es) = result_of e @ results_of es"
  "results_of (xs @ ys) = results_of xs @ results_of ys"
  by (simp_all add: results_of_def)

lemma attempt_loop_done:
  "\<not> a \<le> max_step_iterations self \<Longrightarrow>
   attempt_loop self task step appr a fb atts tr = (Inr (atts, appr, False), tr)"
  by (subst attempt_loop.simps) simp

lemma attempt_loop_execute_fails:
  "a \<le> max_step_iterations self \<Longrightarrow> execute_step self tr task step appr fb = Inl x \<Longrightarrow>
   attempt_loop self task step appr a fb atts tr
   = (Inl (Propagated x), tr @ [ExecuteStep task step appr fb (Inl x)])"
  by (subst attempt_loop.simps) (simp add: Let_def)

lemma attempt_loop_review_fails:
  "a \<le> max_step_iterations self \<Longrightarrow> execute_step self tr task step appr fb = Inr out \<Longrightarrow>
   review_step self (tr @ [ExecuteStep task step appr fb (Inr out)]) task step out a = Inl x \<Longrightarrow>
   attempt_loop self task step appr a fb atts tr
   = (Inl (Propagated x),
      tr @ [ExecuteStep task step appr fb (Inr out), ReviewStep task step out a (Inl x)])"
  by (subst attempt_loop.simps) (simp add: Let_def)

lemma attempt_loop_approved:
  "a \<le> max_step_iterations self \<Longrightarrow> execute_step self tr task step appr fb = Inr out \<Longrightarrow>
   review_step self (tr @ [ExecuteStep task step appr fb (Inr out)]) task step out a = Inr rv \<Longrightarrow>
   truthy (get rv ''approved'') \<Longrightarrow>
   attempt_loop self task step appr a fb atts tr
   = (Inr (atts @ [step_result step out rv a], appr @ [step_result step out rv a], False),
      tr @ [ExecuteStep task step appr fb (Inr out), ReviewStep task step out a (Inr rv)])"
  by (subst attempt_loop.simps) (simp add: Let_def step_result_def)

lemma attempt_loop_replan:
  "a \<le> max_step_iterations self \<Longrightarrow> execute_step self tr task step appr fb = Inr out \<Longrightarrow>
   review_step self (tr @ [ExecuteStep task step appr fb (Inr out)]) task step out a = Inr rv \<Longrightarrow>
   \<not> truthy (get rv ''approved'') \<Longrightarrow> truthy (get rv ''requires_replan'') \<Longrightarrow>
   attempt_loop self task step appr a fb atts tr
   = (Inr (atts @ [step_result step out rv a], appr, True),
      tr @ [ExecuteStep task step appr fb (Inr out), ReviewStep task step out a (Inr rv)])"
  by (subst attempt_loop.simps) (simp add: Let_def step_result_def)

lemma attempt_loop_retry:
  "a \<le> max_step_iterations self \<Longrightarrow> execute_step self tr task step appr fb = Inr out \<Longrightarrow>
   review_step self (tr @ [ExecuteStep task step appr fb (Inr out)]) task step out a = Inr rv \<Longrightarrow>
   \<not> truthy (get rv ''approved'') \<Longrightarrow> \<not> truthy (get rv ''requires_replan'') \<Longrightarrow>
   attempt_loop self task step appr a fb atts tr
   = attempt_loop self task step appr (a + 1) (get rv ''feedback'')
       (atts @ [step_result step out rv a])
       (tr @ [ExecuteStep task step appr fb (Inr out), ReviewStep task step out a (Inr rv)])"
  by (subst attempt_loop.simps) (simp add: Let_def step_result_def)

lemma attempt_loop_events:
  "attempt_loop self task step appr a0 fb0 atts0 tr = (res, tr @ d) \<Longrightarrow>
   \<forall>e\<in>set d. step_event task step appr e"
proof (induction self task step appr a0 fb0 atts0 tr arbitrary: d rule: attempt_loop_induct)
  case (round self task step appr a0 fb0 atts0 tr)
  note run = round.prems
  show ?case
  proof (cases "a0 \<le> max_step_iterations self")
    case False
    from run [unfolded attempt_loop_done [OF False]] show ?thesis by simp
  next
    case le: True
    show ?thesis
    proof (cases "execute_step self tr task step appr fb0")
      case (Inl x)
      from run [unfolded attempt_loop_execute_fails [OF le Inl]] show ?thesis by auto
    next
      case ex: (Inr out0)
      let ?E = "ExecuteStep task step appr fb0 (Inr out0)"
      show ?thesis
      proof (cases "review_step self (tr @ [?E]) task step out0 a0")
        case (Inl x)
        from run [unfolded attempt_loop_review_fails [OF le ex Inl]] show ?thesis by auto
      next
        case rvw: (Inr rv0)
        let ?R = "ReviewStep task step out0 a0 (Inr rv0)"
        consider (ap) "truthy (get rv0 ''approved'')"
          | (rp) "\<not> truthy (get rv0 ''approved'')" "truthy (get rv0 ''requires_replan'')"
          | (re) "\<not> truthy (get rv0 ''approved'')" "\<not> truthy (get rv0 ''requires_replan'')"
          by blast
        then show ?thesis
        proof cases
          case ap
          from run [unfolded attempt_loop_approved [OF le ex rvw ap]] show ?thesis by auto
        next
          case rp
          from run [unfolded attempt_loop_replan [OF le ex rvw rp]] show ?thesis by auto
        next
          case re
          note rec = run [unfolded attempt_loop_retry [OF le ex rvw re]]
          from attempt_loop_extends [OF rec] obtain d' where d': "d = ?E # ?R # d'"
            by auto
          from rec d' have rec': "attempt_loop self task step appr (a0 + 1) (get rv0 ''feedback'')
                       (atts0 @ [step_result step out0 rv0 a0]) (tr @ [?E, ?R])
                       = (res, (tr @ [?E, ?R]) @ d')"
            by simp
          from round.IH [OF le ex rvw re, unfolded step_result_def [symmetric], OF rec'] d'
          show ?thesis by simp
        qed
      qed
    qed
  qed
qed

lemma attempt_loop_trace:
  "attempt_loop self task step appr a0 fb0 atts0 tr = (Inr (atts, appr', flag), tr @ d) \<Longrightarrow>
   atts = atts0 @ results_of d
   \<and> appr' = appr @ filter is_approved (results_of d)
   \<and> length (filter is_execute_step d) = length (results_of d)
   \<and> length (filter is_review_step d) = length (results_of d)
   \<and> map attempt_of (results_of d) = map (\<lambda>k. a0 + int k) [0..<length (results_of d)]
   \<and> (\<forall>x\<in>set (results_of d). attempt_of x \<le> max_step_iterations self)
   \<and> filter is_approved (results_of d)
       = (if results_of d \<noteq> [] \<and> is_approved (last (results_of d))
          then [last (results_of d)] else [])
   \<and> \<not> (flag \<and> results_of d \<noteq> [] \<and> is_approved (last (results_of d)))"
proof (induction self task step appr a0 fb0 atts0 tr arbitrary: d rule: attempt_loop_induct)
  case (round self task step appr a0 fb0 atts0 tr)
  note run = round.prems
  show ?case
  proof (cases "a0 \<le> max_step_iterations self")
    case False
    from run [unfolded attempt_loop_done [OF False]] show ?thesis by simp
  next
    case le: True
    show ?thesis
    proof (cases "execute_step self tr task step appr fb0")
      case (Inl x)
      from run [unfolded attempt_loop_execute_fails [OF le Inl]] show ?thesis by simp
    next
      case ex: (Inr out0)
      let ?E = "ExecuteStep task step appr fb0 (Inr out0)"
      show ?thesis
      proof (cases "review_step self (tr @ [?E]) task step out0 a0")
        case (Inl x)
        from run [unfolded attempt_loop_review_fails [OF le ex Inl]] show ?thesis by simp
      next
        case rvw: (Inr rv0)
        let ?R = "ReviewStep task step out0 a0 (Inr rv0)"
        consider (ap) "truthy (get rv0 ''approved'')"
          | (rp) "\<not> truthy (get rv0 ''approved'')" "truthy (get rv0 ''requires_replan'')"
          | (re) "\<not> truthy (get rv0 ''approved'')" "\<not> truthy (get rv0 ''requires_replan'')"
          by blast
        then show ?thesis
        proof cases
          case ap
          from run [unfolded attempt_loop_approved [OF le ex rvw ap]] ap le show ?thesis
            by (auto simp: is_approved_def step_result_def)
        next
          case rp
          from run [unfolded attempt_loop_replan [OF le ex rvw rp]] rp le show ?thesis
            by (auto simp: is_approved_def step_result_def)
        next
          case re
          note rec = run [unfolded attempt_loop_retry [OF le ex rvw re]]
          from attempt_loop_extends [OF rec] obtain d' where d': "d = ?E # ?R # d'"
            by auto
          from rec d' have rec': "attempt_loop self task step appr (a0 + 1) (get rv0 ''feedback'')
                       (atts0 @ [step_result step out0 rv0 a0]) (tr @ [?E, ?R])
                       = (Inr (atts, appr', flag), (tr @ [?E, ?R]) @ d')"
            by simp
          note ih = round.IH [OF le ex rvw re, unfolded step_result_def [symmetric], OF rec']
          have num: "map (\<lambda>k. a0 + int k) [0..<Suc n] = a0 # map (\<lambda>k. a0 + 1 + int k) [0..<n]" for n
            by (simp add: upt_conv_Cons map_Suc_upt [symmetric] del: upt_Suc)
          from ih re le show ?thesis
            by (auto simp add: d' is_approved_def step_result_def num simp del: upt_Suc)
        qed
      qed
    qed
  qed
qed

lemma step_loop_Cons_cases [consumes 1, case_names dict_fails stops continues]:
  assumes run: "step_loop py self task (raw # rest) idx allr appr tr = (res, tr @ d)"
  obtains x where "py_dict py raw = Inl x" "d = []" "res = Inl (Propagated x)"
  | d0 step ra where "py_dict py raw = Inr d0"
      "step = setdefault d0 ''id'' (JStr (''step-'' @ str_int idx))"
      "attempt_loop self task step appr 1 JNull [] tr = (ra, tr @ d)"
      "\<And>allr'. res \<noteq> Inr (AllApproved allr')"
  | d0 step atts appr' da dr where "py_dict py raw = Inr d0"
      "step = setdefault d0 ''id'' (JStr (''step-'' @ str_int idx))"
      "attempt_loop self task step appr 1 JNull [] tr = (Inr (atts, appr', False), tr @ da)"
      "atts \<noteq> []" "truthy (get (review (last atts)) ''approved'')"
      "d = da @ dr"
      "step_loop py self task rest (idx + 1) (allr @ atts) appr' (tr @ da) = (res, (tr @ da) @ dr)"
proof (cases "py_dict py raw")
  case (Inl x)
  with run have "d = []" "res = Inl (Propagated x)" by simp_all
  with Inl that(1) show ?thesis by blast
next
  case (Inr d0)
  define step where "step = setdefault d0 ''id'' (JStr (''step-'' @ str_int idx))"
  obtain ra tr1 where att0: "attempt_loop self task step appr 1 JNull [] tr = (ra, tr1)"
    by fastforce
  from attempt_loop_extends [OF att0] obtain da where da: "tr1 = tr @ da" by blast
  note att = att0 [unfolded da]
  note run' = run [unfolded step_loop_Cons [OF Inr step_def att0]]
  show ?thesis
  proof (cases ra)
    case (Inl e)
    with run' da have "d = da" "res = Inl e" by simp_all
    with att Inl show ?thesis
      by (intro that(2) [OF Inr step_def]) simp_all
  next
    case ok: (Inr trip)
    obtain atts appr' flag where trip: "trip = (atts, appr', flag)"
      by (cases trip) auto
    consider (stop) "flag \<or> atts = [] \<or> \<not> truthy (get (review (last atts)) ''approved'')"
      | (go) "\<not> flag" "atts \<noteq> []" "truthy (get (review (last atts)) ''approved'')"
      by blast
    then show ?thesis
    proof cases
      case stop
      with run' ok trip da have "d = da" "\<And>allr'. res \<noteq> Inr (AllApproved allr')"
        by (auto split: if_splits)
      with att show ?thesis
        by (intro that(2) [OF Inr step_def]) simp_all
    next
      case go
      with run' ok trip
      have rec0: "step_loop py self task rest (idx + 1) (allr @ atts) appr' tr1 = (res, tr @ d)"
        by simp
      from step_loop_extends [OF rec0] da obtain dr where dr: "d = da @ dr"
        by auto
      from rec0 da dr
      have rec: "step_loop py self task rest (idx + 1) (allr @ atts) appr' (tr @ da)
                 = (res, (tr @ da) @ dr)"
        by simp
      from att ok trip go
      have att': "attempt_loop self task step appr 1 JNull [] tr = (Inr (atts, appr', False), tr @ da)"
        by simp
      from that(3) [OF Inr step_def att' go(2,3) dr rec] show ?thesis .
    qed
  qed
qed

lemma step_loop_events:
  "step_loop py self task steps idx allr appr tr = (res, tr @ d) \<Longrightarrow>
   \<forall>e\<in>set d. is_execute_step e \<or> is_review_step e"
proof (induction steps arbitrary: idx allr appr tr d)
  case Nil
  then show ?case by simp
next
  case (Cons raw rest)
  have ev: "is_execute_step e \<or> is_review_step e" if "step_event task step appr e" for step e
    using that by (cases e) simp_all
  from Cons.prems show ?case
  proof (cases rule: step_loop_Cons_cases)
    case (dict_fails x)
    then show ?thesis by simp
  next
    case (stops d0 step ra)
    from attempt_loop_events [OF stops(3)] ev show ?thesis by blast
  next
    case (continues d0 step atts appr' da dr)
    from attempt_loop_events [OF continues(3)] ev Cons.IH [OF continues(7)] continues(6)
    show ?thesis by auto
  qed
qed

lemma step_loop_prior:
  "step_loop py self task steps idx allr appr tr = (res, tr @ d) \<Longrightarrow>
   ExecuteStep t s p fb r \<in> set d \<Longrightarrow>
   \<exists>xs. p = appr @ xs \<and> set xs \<subseteq> set (results_of d) \<and> (\<forall>x\<in>set xs. is_approved x)"
proof (induction steps arbitrary: idx allr appr tr d)
  case Nil
  then show ?case by simp
next
  case (Cons raw rest)
  note mem = Cons.prems(2)
  from Cons.prems(1) show ?case
  proof (cases rule: step_loop_Cons_cases)
    case (dict_fails x)
    with mem show ?thesis by simp
  next
    case (stops d0 step ra)
    from attempt_loop_events [OF stops(3)] mem have "p = appr" by auto
    then show ?thesis by simp
  next
    case (continues d0 step atts appr' da dr)
    from mem continues(6) consider "ExecuteStep t s p fb r \<in> set da"
      | "ExecuteStep t s p fb r \<in> set dr" by auto
    then show ?thesis
    proof cases
      case 1
      with attempt_loop_events [OF continues(3)] have "p = appr" by auto
      then show ?thesis by simp
    next
      case 2
      from Cons.IH [OF continues(7) 2] obtain xs where xs: "p = appr' @ xs"
        "set xs \<subseteq> set (results_of dr)" "\<forall>x\<in>set xs. is_approved x" by blast
      from attempt_loop_trace [OF continues(3)]
      have a': "appr' = appr @ filter is_approved (results_of da)" by simp
      show ?thesis
        apply (rule exI [of _ "filter is_approved (results_of da) @ xs"])
        using xs a' continues(6) by auto
    qed
  qed
qed

lemma step_loop_results:
  "step_loop py self task steps idx allr appr tr = (Inr (AllApproved allr'), tr @ d) \<Longrightarrow>
   allr' = allr @ results_of d
   \<and> length (filter is_execute_step d) = length (results_of d)"
proof (induction steps arbitrary: idx allr appr tr d)
  case Nil
  then show ?case by simp
next
  case (Cons raw rest)
  from Cons.prems show ?case
  proof (cases rule: step_loop_Cons_cases)
    case (dict_fails x)
    then show ?thesis by simp
  next
    case (stops d0 step ra)
    from stops(4) show ?thesis by blast
  next
    case (continues d0 step atts appr' da dr)
    from attempt_loop_trace [OF continues(3)] Cons.IH [OF continues(7)] continues(6)
    show ?thesis by simp
  qed
qed

subsection \<open>The planning loop and the whole run\<close>

lemma finalise_trace:
  "finalise py self task plan allr tr = (res, tr') \<Longrightarrow>
   \<exists>df. tr' = tr @ df \<and> results_of df = [] \<and> filter is_execute_step df = []
      \<and> (\<forall>e\<in>set df. \<not> is_plan_event e)
      \<and> (\<forall>r fb. res = Inr (Some r, fb) \<longrightarrow>
            step_results r = allr \<and> plan_of r = plan \<and> task_of r = task)
      \<and> (\<forall>fb. res \<noteq> Inr (None, fb))"
  by (auto simp: finalise_def write_report_def Let_def
      split: sum.splits option.splits prod.splits)

lemma execute_plan_events:
  assumes "execute_plan py self task plan tr = (res, tr @ d)"
  shows "\<forall>e\<in>set d. \<not> is_plan_event e"
proof -
  have ev: "\<not> is_plan_event e" if "is_execute_step e \<or> is_review_step e" for e
    using that by (cases e) simp_all
  from execute_plan_steps [OF assms]
  consider "d = []"
    | xs rs tr1 where "step_loop py self task xs 1 [] [] tr = (rs, tr1)"
        "case rs of
                  Inl e \<Rightarrow> res = Inl e \<and> tr @ d = tr1
                | Inr (ReplanRequested fb) \<Rightarrow> res = Inr (None, fb) \<and> tr @ d = tr1
                | Inr (AllApproved allr) \<Rightarrow> finalise py self task plan allr tr1 = (res, tr @ d)"
    by auto
  then show ?thesis
  proof cases
    case 1
    then show ?thesis by simp
  next
    case 2
    from step_loop_extends [OF 2(1)] obtain ds where ds: "tr1 = tr @ ds" by blast
    note se = step_loop_events [OF 2(1) [unfolded ds]]
    show ?thesis
    proof (cases rs)
      case (Inl e)
      with 2(2) ds se ev show ?thesis by auto
    next
      case (Inr oc)
      show ?thesis
      proof (cases oc)
        case (ReplanRequested fb)
        with Inr 2(2) ds se ev show ?thesis by auto
      next
        case (AllApproved allr)
        with Inr 2(2) have "finalise py self task plan allr tr1 = (res, tr @ d)" by simp
        from finalise_trace [OF this] ds obtain df where "d = ds @ df"
          "\<forall>e\<in>set df. \<not> is_plan_event e" by auto
        with se ev show ?thesis by auto
      qed
    qed
  qed
qed

lemma execute_plan_cases [consumes 1, case_names malformed fails replan completes]:
  assumes run: "execute_plan py self task plan tr = (res, tr @ d)"
  obtains "d = []" "res = Inl (ValueError ''Planner response must contain a 'steps' array.'')"
  | xs e where "step_loop py self task xs 1 [] [] tr = (Inl e, tr @ d)" "res = Inl e"
  | xs fb where "step_loop py self task xs 1 [] [] tr = (Inr (ReplanRequested fb), tr @ d)"
      "res = Inr (None, fb)"
  | xs allr ds df where "step_loop py self task xs 1 [] [] tr = (Inr (AllApproved allr), tr @ ds)"
      "finalise py self task plan allr (tr @ ds) = (res, (tr @ ds) @ df)" "d = ds @ df"
proof (cases "if truthy (get plan ''steps'') then get plan ''steps'' else JList []")
  case (JList xs)
  obtain rs tr1 where sl: "step_loop py self task xs 1 [] [] tr = (rs, tr1)"
    by fastforce
  from step_loop_extends [OF sl] obtain ds where ds: "tr1 = tr @ ds" by blast
  show ?thesis
  proof (cases rs)
    case (Inl e)
    with run sl JList have "res = Inl e" "tr @ d = tr1"
      by (simp_all add: execute_plan_def Let_def)
    with sl Inl that(2) show ?thesis by blast
  next
    case (Inr oc)
    show ?thesis
    proof (cases oc)
      case (ReplanRequested fb)
      with run sl JList Inr have "res = Inr (None, fb)" "tr @ d = tr1"
        by (simp_all add: execute_plan_def Let_def)
      with sl Inr ReplanRequested that(3) show ?thesis by blast
    next
      case (AllApproved allr)
      with run sl JList Inr have fin: "finalise py self task plan allr tr1 = (res, tr @ d)"
        by (simp add: execute_plan_def Let_def)
      from finalise_extends [OF fin] ds obtain df where df: "d = ds @ df" by auto
      from fin ds df have "finalise py self task plan allr (tr @ ds) = (res, (tr @ ds) @ df)"
        by simp
      with sl Inr AllApproved ds df that(4) show ?thesis by blast
    qed
  qed
qed (use run that(1) in \<open>auto simp: execute_plan_def Let_def\<close>)

lemma execute_plan_results:
  assumes "execute_plan py self task plan tr = (Inr (Some r, fb), tr @ d)"
  shows "step_results r = results_of d
       \<and> length (filter is_execute_step d) = length (step_results r)
       \<and> plan_of r = plan \<and> task_of r = task"
  using assms
proof (cases rule: execute_plan_cases)
  case (completes xs allr ds df)
  from step_loop_results [OF completes(1)]
  have a: "allr = results_of ds" "length (filter is_execute_step ds) = length (results_of ds)"
    by simp_all
  from finalise_trace [OF completes(2)] have "results_of df = []"
    "filter is_execute_step df = []"
    "step_results r = allr \<and> plan_of r = plan \<and> task_of r = task"
    by auto
  with a completes(3) show ?thesis by simp
qed simp_all

lemma plan_loop_extends:
  "plan_loop py self task n fb prev tr = (res, tr') \<Longrightarrow> \<exists>d. tr' = tr @ d"
proof (induction py self task n fb prev tr rule: plan_loop_induct)
  case (iteration py self task n fb prev tr)
  note run = iteration.prems
  show ?case
  proof (cases "n < max_plan_iterations self")
    case False
    from run [unfolded plan_loop_stop [OF False]] show ?thesis by simp
  next
    case lt: True
    show ?thesis
    proof (cases "propose_plan self tr task fb prev")
      case (Inl x)
      from run [unfolded plan_loop_propose_fails [OF lt Inl]] show ?thesis by auto
    next
      case pp: (Inr plan)
      let ?P = "ProposePlan task fb prev (Inr plan)"
      show ?thesis
      proof (cases "review_plan self (tr @ [?P]) task plan (n + 1)")
        case (Inl x)
        from run [unfolded plan_loop_review_fails [OF lt pp Inl]] show ?thesis by auto
      next
        case rp: (Inr prv)
        let ?R = "ReviewPlan task plan (n + 1) (Inr prv)"
        show ?thesis
        proof (cases "truthy (get prv ''approved'')")
          case False
          from iteration.IH(1) [OF lt pp rp False run [unfolded plan_loop_rejected [OF lt pp rp False]]]
          show ?thesis by auto
        next
          case ap: True
          obtain re tr2 where ex: "execute_plan py self task plan (tr @ [?P, ?R]) = (re, tr2)"
            by fastforce
          from execute_plan_extends [OF ex] obtain de where de: "tr2 = (tr @ [?P, ?R]) @ de"
            by blast
          note run' = run [unfolded plan_loop_approved [OF lt pp rp ap ex]]
          show ?thesis
          proof (cases re)
            case (Inl e)
            with run' de show ?thesis by auto
          next
            case (Inr pr)
            obtain ro fb' where pr: "pr = (ro, fb')" by (cases pr) auto
            show ?thesis
            proof (cases ro)
              case (Some r)
              with run' Inr pr de show ?thesis by auto
            next
              case None
              show ?thesis
              proof (cases "1 \<le> max_replan_attempts self")
                case False
                with run' Inr pr None de show ?thesis by auto
              next
                case True
                with run' Inr pr None
                have rec: "plan_loop py self task (n + 1)
                             (if truthy fb' then fb' else replan_default) (Some plan) tr2
                           = (res, tr')" by simp
                from ex Inr pr None
                have ex': "execute_plan py self task plan (tr @ [?P, ?R]) = (Inr (None, fb'), tr2)"
                  by simp
                from iteration.IH(2) [OF lt pp rp ap ex' True rec] de show ?thesis by auto
              qed
            qed
          qed
        qed
      qed
    qed
  qed
qed

lemma plan_loop_cases [consumes 1, case_names exhausted propose_fails review_fails rejected
    execution_ends replan_bound replanned]:
  assumes run: "plan_loop py self task n fb prev tr = (res, tr @ d)"
  obtains "\<not> n < max_plan_iterations self" "d = []"
      "res = Inl (RuntimeError (plan_bound_message task))"
  | x where "n < max_plan_iterations self" "d = [ProposePlan task fb prev (Inl x)]"
      "res = Inl (Propagated x)"
  | plan x where "n < max_plan_iterations self"
      "d = [ProposePlan task fb prev (Inr plan), ReviewPlan task plan (n + 1) (Inl x)]"
      "res = Inl (Propagated x)"
  | plan prv dr where "n < max_plan_iterations self"
      "propose_plan self tr task fb prev = Inr plan"
      "review_plan self (tr @ [ProposePlan task fb prev (Inr plan)]) task plan (n + 1) = Inr prv"
      "\<not> truthy (get prv ''approved'')"
      "d = ProposePlan task fb prev (Inr plan) # ReviewPlan task plan (n + 1) (Inr prv) # dr"
      "plan_loop py self task (n + 1) (get prv ''feedback'') (Some plan)
         (tr @ [ProposePlan task fb prev (Inr plan), ReviewPlan task plan (n + 1) (Inr prv)])
       = (res, (tr @ [ProposePlan task fb prev (Inr plan),
                      ReviewPlan task plan (n + 1) (Inr prv)]) @ dr)"
  | plan prv de re where "n < max_plan_iterations self"
      "truthy (get prv ''approved'')"
      "d = ProposePlan task fb prev (Inr plan) # ReviewPlan task plan (n + 1) (Inr prv) # de"
      "execute_plan py self task plan
         (tr @ [ProposePlan task fb prev (Inr plan), ReviewPlan task plan (n + 1) (Inr prv)])
       = (re, (tr @ [ProposePlan task fb prev (Inr plan),
                     ReviewPlan task plan (n + 1) (Inr prv)]) @ de)"
      "(\<exists>e. re = Inl e \<and> res = Inl e) \<or> (\<exists>r fb'. re = Inr (Some r, fb') \<and> res = Inr r)"
  | plan prv de fb' where "n < max_plan_iterations self"
      "truthy (get prv ''approved'')"
      "d = ProposePlan task fb prev (Inr plan) # ReviewPlan task plan (n + 1) (Inr prv) # de"
      "execute_plan py self task plan
         (tr @ [ProposePlan task fb prev (Inr plan), ReviewPlan task plan (n + 1) (Inr prv)])
       = (Inr (None, fb'), (tr @ [ProposePlan task fb prev (Inr plan),
                                   ReviewPlan task plan (n + 1) (Inr prv)]) @ de)"
      "\<not> 1 \<le> max_replan_attempts self"
      "res = Inl (RuntimeError (replan_bound_message task))"
  | plan prv de fb' dr where "n < max_plan_iterations self"
      "propose_plan self tr task fb prev = Inr plan"
      "review_plan self (tr @ [ProposePlan task fb prev (Inr plan)]) task plan (n + 1) = Inr prv"
      "truthy (get prv ''approved'')"
      "execute_plan py self task plan
         (tr @ [ProposePlan task fb prev (Inr plan), ReviewPlan task plan (n + 1) (Inr prv)])
       = (Inr (None, fb'), (tr @ [ProposePlan task fb prev (Inr plan),
                                   ReviewPlan task plan (n + 1) (Inr prv)]) @ de)"
      "1 \<le> max_replan_attempts self"
      "d = ProposePlan task fb prev (Inr plan) # ReviewPlan task plan (n + 1) (Inr prv) # de @ dr"
      "plan_loop py self task (n + 1) (if truthy fb' then fb' else replan_default) (Some plan)
         ((tr @ [ProposePlan task fb prev (Inr plan),
                 ReviewPlan task plan (n + 1) (Inr prv)]) @ de)
       = (res, (((tr @ [ProposePlan task fb prev (Inr plan),
                        ReviewPlan task plan (n + 1) (Inr prv)]) @ de) @ dr))"
proof (cases "n < max_plan_iterations self")
  case False
  from run [unfolded plan_loop_stop [OF False]] have "d = []"
    "res = Inl (RuntimeError (plan_bound_message task))"
    by (simp_all add: plan_bound_message_def)
  with False that(1) show ?thesis by blast
next
  case lt: True
  show ?thesis
  proof (cases "propose_plan self tr task fb prev")
    case (Inl x)
    from run [unfolded plan_loop_propose_fails [OF lt Inl]] lt that(2) show ?thesis by auto
  next
    case pp: (Inr plan)
    let ?P = "ProposePlan task fb prev (Inr plan)"
    show ?thesis
    proof (cases "review_plan self (tr @ [?P]) task plan (n + 1)")
      case (Inl x)
      from run [unfolded plan_loop_review_fails [OF lt pp Inl]] lt that(3) show ?thesis by auto
    next
      case rp: (Inr prv)
      let ?R = "ReviewPlan task plan (n + 1) (Inr prv)"
      show ?thesis
      proof (cases "truthy (get prv ''approved'')")
        case False
        note rec = run [unfolded plan_loop_rejected [OF lt pp rp False]]
        from plan_loop_extends [OF rec] obtain dr where dr: "d = ?P # ?R # dr" by auto
        from rec dr have "plan_loop py self task (n + 1) (get prv ''feedback'') (Some plan)
                           (tr @ [?P, ?R]) = (res, (tr @ [?P, ?R]) @ dr)" by simp
        from that(4) [OF lt pp rp False dr this] show ?thesis .
      next
        case ap: True
        obtain re tr2 where ex0: "execute_plan py self task plan (tr @ [?P, ?R]) = (re, tr2)"
          by fastforce
        from execute_plan_extends [OF ex0] obtain de where de: "tr2 = (tr @ [?P, ?R]) @ de"
          by blast
        note ex = ex0 [unfolded de]
        note run' = run [unfolded plan_loop_approved [OF lt pp rp ap ex0]]
        show ?thesis
        proof (cases re)
          case (Inl e)
          with run' de have "d = ?P # ?R # de" "res = Inl e" by simp_all
          with that(5) [OF lt ap _ ex] Inl show ?thesis by blast
        next
          case (Inr pr)
          obtain ro fb' where pr: "pr = (ro, fb')" by (cases pr) auto
          show ?thesis
          proof (cases ro)
            case (Some r)
            with run' Inr pr de have "d = ?P # ?R # de" "res = Inr r" by simp_all
            with that(5) [OF lt ap _ ex] Inr pr Some show ?thesis by blast
          next
            case None
            from ex Inr pr None
            have ex': "execute_plan py self task plan (tr @ [?P, ?R])
                       = (Inr (None, fb'), (tr @ [?P, ?R]) @ de)" by simp
            show ?thesis
            proof (cases "1 \<le> max_replan_attempts self")
              case False
              with run' Inr pr None de have "d = ?P # ?R # de"
                "res = Inl (RuntimeError (replan_bound_message task))"
                by (simp_all add: replan_bound_message_def)
              with that(6) [OF lt ap _ ex' False] show ?thesis by blast
            next
              case True
              with run' Inr pr None
              have rec0: "plan_loop py self task (n + 1)
                           (if truthy fb' then fb' else replan_default) (Some plan) tr2
                         = (res, tr @ d)" by simp
              from plan_loop_extends [OF rec0] de obtain dr where dr: "d = ?P # ?R # de @ dr"
                by auto
              from rec0 de dr
              have rec: "plan_loop py self task (n + 1)
                           (if truthy fb' then fb' else replan_default) (Some plan)
                           ((tr @ [?P, ?R]) @ de)
                         = (res, ((tr @ [?P, ?R]) @ de) @ dr)" by simp
              from that(7) [OF lt pp rp ap ex' True dr rec] show ?thesis .
            qed
          qed
        qed
      qed
    qed
  qed
qed

lemma plan_loop_head:
  assumes "plan_loop py self task n fb prev tr = (res, tr @ d)"
  shows "(n < max_plan_iterations self \<longrightarrow> (\<exists>r d3. d = ProposePlan task fb prev r # d3))
       \<and> (\<not> n < max_plan_iterations self \<longrightarrow>
            d = [] \<and> res = Inl (RuntimeError (plan_bound_message task)))"
  using assms by (cases rule: plan_loop_cases) simp_all

lemma split_after_two:
  assumes "x # y # zs = d1 @ e # d2" "e \<noteq> x" "e \<noteq> y"
  shows "\<exists>d1'. d1 = x # y # d1' \<and> zs = d1' @ e # d2"
  using assms by (cases d1; cases "tl d1") auto

lemma plan_loop_replan_next:
  assumes "plan_loop py self task n fb prev tr = (res, tr @ d)"
    and "d = d1 @ ReviewStep t s out a (Inr rv) # d2"
    and "\<not> truthy (get rv ''approved'')" and "truthy (get rv ''requires_replan'')"
  shows "\<exists>da plan i prv db. d1 = da @ ReviewPlan task plan i (Inr prv) # db
       \<and> (\<forall>e\<in>set db. \<not> is_plan_event e) \<and> truthy (get prv ''approved'')
       \<and> n < i \<and> i \<le> max_plan_iterations self
       \<and> (1 \<le> max_replan_attempts self \<and> i < max_plan_iterations self \<longrightarrow>
            (\<exists>r d3. d2 = ProposePlan task
                             (if truthy (get rv ''feedback'') then get rv ''feedback''
                              else replan_default) (Some plan) r # d3))
       \<and> (\<not> 1 \<le> max_replan_attempts self \<longrightarrow>
            d2 = [] \<and> res = Inl (RuntimeError (replan_bound_message task)))
       \<and> (1 \<le> max_replan_attempts self \<and> \<not> i < max_plan_iterations self \<longrightarrow>
            d2 = [] \<and> res = Inl (RuntimeError (plan_bound_message task)))"
  using assms(1,2)
proof (induction py self task n fb prev tr arbitrary: d d1 rule: plan_loop_induct)
  case (iteration py self task n fb prev tr)
  note split = iteration.prems(2)
  let ?e = "ReviewStep t s out a (Inr rv)"
  have later: ?case
    if pre: "d1 = pre @ d1'"
      and ih: "\<exists>da plan i prv db. d1' = da @ ReviewPlan task plan i (Inr prv) # db
       \<and> (\<forall>e\<in>set db. \<not> is_plan_event e) \<and> truthy (get prv ''approved'')
       \<and> n + 1 < i \<and> i \<le> max_plan_iterations self
       \<and> (1 \<le> max_replan_attempts self \<and> i < max_plan_iterations self \<longrightarrow>
            (\<exists>r d3. d2 = ProposePlan task
                             (if truthy (get rv ''feedback'') then get rv ''feedback''
                              else replan_default) (Some plan) r # d3))
       \<and> (\<not> 1 \<le> max_replan_attempts self \<longrightarrow>
            d2 = [] \<and> res = Inl (RuntimeError (replan_bound_message task)))
       \<and> (1 \<le> max_replan_attempts self \<and> \<not> i < max_plan_iterations self \<longrightarrow>
            d2 = [] \<and> res = Inl (RuntimeError (plan_bound_message task)))"
    for pre d1'
  proof -
    from ih obtain da plan i prv db where
      A: "d1' = da @ ReviewPlan task plan i (Inr prv) # db"
      and B: "\<forall>e\<in>set db. \<not> is_plan_event e" "truthy (get prv ''approved'')"
        "n + 1 < i" "i \<le> max_plan_iterations self"
      and F: "1 \<le> max_replan_attempts self \<and> i < max_plan_iterations self \<longrightarrow>
            (\<exists>r d3. d2 = ProposePlan task
                             (if truthy (get rv ''feedback'') then get rv ''feedback''
                              else replan_default) (Some plan) r # d3)"
        "\<not> 1 \<le> max_replan_attempts self \<longrightarrow>
            d2 = [] \<and> res = Inl (RuntimeError (replan_bound_message task))"
        "1 \<le> max_replan_attempts self \<and> \<not> i < max_plan_iterations self \<longrightarrow>
            d2 = [] \<and> res = Inl (RuntimeError (plan_bound_message task))"
      by (elim exE conjE)
    from B(3) have lt: "n < i" by simp
    from pre A have d1: "d1 = (pre @ da) @ ReviewPlan task plan i (Inr prv) # db" by simp
    show ?thesis
      apply (rule exI [of _ "pre @ da"], rule exI [of _ plan], rule exI [of _ i],
          rule exI [of _ prv], rule exI [of _ db])
      apply (intro conjI d1 B(1,2,4) lt F)
      done
  qed
  from iteration.prems(1) show ?case
  proof (cases rule: plan_loop_cases)
    case exhausted
    with split show ?thesis by simp
  next
    case (propose_fails x)
    with split show ?thesis by (cases d1) simp_all
  next
    case (review_fails plan x)
    with split show ?thesis by (cases d1; cases "tl d1") auto
  next
    case (rejected plan prv dr)
    let ?P = "ProposePlan task fb prev (Inr plan)"
    let ?R = "ReviewPlan task plan (n + 1) (Inr prv)"
    from split_after_two [OF split [unfolded rejected(5), symmetric, THEN sym]]
    obtain d1' where d1': "d1 = ?P # ?R # d1'" "dr = d1' @ ?e # d2" by auto
    from d1'(1) have pre: "d1 = [?P, ?R] @ d1'" by simp
    from iteration.IH(1) [OF rejected(1-4) rejected(6) d1'(2)]
    show ?thesis by (rule later [OF pre])
  next
    case (execution_ends plan prv de re)
    let ?P = "ProposePlan task fb prev (Inr plan)"
    let ?R = "ReviewPlan task plan (n + 1) (Inr prv)"
    from split_after_two [OF split [unfolded execution_ends(3), symmetric, THEN sym]]
    obtain d1' where d1': "d1 = ?P # ?R # d1'" "de = d1' @ ?e # d2" by auto
    from execute_plan_next [OF execution_ends(4) d1'(2)] assms(3,4)
    have "re = Inr (None, get rv ''feedback'')" by simp
    with execution_ends(5) show ?thesis by auto
  next
    case (replan_bound plan prv de fb')
    let ?P = "ProposePlan task fb prev (Inr plan)"
    let ?R = "ReviewPlan task plan (n + 1) (Inr prv)"
    from split_after_two [OF split [unfolded replan_bound(3), symmetric, THEN sym]]
    obtain d1' where d1': "d1 = ?P # ?R # d1'" "de = d1' @ ?e # d2" by auto
    from execute_plan_next [OF replan_bound(4) d1'(2)] assms(3,4)
    have d2: "d2 = []" by simp
    from execute_plan_events [OF replan_bound(4)] d1'(2)
    have ev: "\<forall>e\<in>set d1'. \<not> is_plan_event e" by simp
    from d1'(1) have d1: "d1 = [?P] @ ?R # d1'" by simp
    from replan_bound(1) have b: "n < n + 1" "n + 1 \<le> max_plan_iterations self" by simp_all
    show ?thesis
      apply (rule exI [of _ "[?P]"], rule exI [of _ plan], rule exI [of _ "n + 1"],
          rule exI [of _ prv], rule exI [of _ d1'])
      apply (intro conjI d1 ev replan_bound(2) b)
      using replan_bound(5,6) d2 apply simp_all
      done
  next
    case (replanned plan prv de fb' dr)
    let ?P = "ProposePlan task fb prev (Inr plan)"
    let ?R = "ReviewPlan task plan (n + 1) (Inr prv)"
    from split_after_two [OF split [unfolded replanned(7), symmetric, THEN sym]]
    obtain d1' where d1': "d1 = ?P # ?R # d1'" "de @ dr = d1' @ ?e # d2" by auto
    from split_at [OF d1'(2)]
    consider (here) zs where "de = d1' @ ?e # zs" "d2 = zs @ dr"
      | (after) zs where "d1' = de @ zs" "dr = zs @ ?e # d2"
      by blast
    then show ?thesis
    proof cases
      case after
      from d1'(1) after(1) have pre: "d1 = (?P # ?R # de) @ zs" by simp
      from iteration.IH(2) [OF replanned(1-6) replanned(8) after(2)]
      show ?thesis by (rule later [OF pre])
    next
      case here
      from execute_plan_next [OF replanned(5) here(1)] assms(3,4)
      have zs: "zs = []" and fb': "fb' = get rv ''feedback''" by simp_all
      from here(2) zs have d2: "d2 = dr" by simp
      from execute_plan_events [OF replanned(5)] here(1)
      have ev: "\<forall>e\<in>set d1'. \<not> is_plan_event e" by simp
      from d1'(1) have d1: "d1 = [?P] @ ?R # d1'" by simp
      from replanned(1) have b: "n < n + 1" "n + 1 \<le> max_plan_iterations self" by simp_all
      note hd = plan_loop_head [OF replanned(8)]
      show ?thesis
        apply (rule exI [of _ "[?P]"], rule exI [of _ plan], rule exI [of _ "n + 1"],
            rule exI [of _ prv], rule exI [of _ d1'])
        apply (intro conjI d1 ev replanned(4) b)
        using replanned(6) hd d2 fb' apply (auto split: if_splits)
        done
    qed
  qed
qed

lemma run_task_cases:
  assumes "run_task py self task tr = (res, tr @ d)"
  shows "(\<exists>x. d = [KickoffTask task (Inl x)])
       \<or> (\<exists>pre dp. d = pre @ dp \<and> (\<forall>e\<in>set pre. \<not> is_review_step e \<and> \<not> is_plan_event e)
            \<and> plan_loop py self task 0 JNull None (tr @ pre) = (res, (tr @ pre) @ dp))"
proof (cases "coordinator self")
  case None
  with assms have "plan_loop py self task 0 JNull None (tr @ []) = (res, (tr @ []) @ d)"
    by (simp add: run_task_def)
  then show ?thesis by (intro disjI2 exI [of _ "[]"] exI [of _ d]) simp
next
  case (Some c)
  show ?thesis
  proof (cases "kickoff_task c tr task")
    case (Inl x)
    with assms Some show ?thesis by (auto simp add: run_task_def Let_def)
  next
    case (Inr kn)
    with assms Some
    have pl: "plan_loop py self task 0 JNull None (tr @ [KickoffTask task (Inr kn)])
              = (res, tr @ d)"
      by (simp add: run_task_def Let_def)
    from plan_loop_extends [OF pl] obtain dp where dp: "d = [KickoffTask task (Inr kn)] @ dp"
      by auto
    from pl dp have "plan_loop py self task 0 JNull None (tr @ [KickoffTask task (Inr kn)])
              = (res, (tr @ [KickoffTask task (Inr kn)]) @ dp)" by simp
    with dp show ?thesis
      by (intro disjI2 exI [of _ "[KickoffTask task (Inr kn)]"] exI [of _ dp]) simp
  qed
qed

lemma run_task_replan_next:
  assumes "run_task py self task tr = (res, tr @ d1 @ ReviewStep t s out a (Inr rv) # d2)"
    and "\<not> truthy (get rv ''approved'')" and "truthy (get rv ''requires_replan'')"
  shows "\<exists>da plan i prv db. d1 = da @ ReviewPlan task plan i (Inr prv) # db
       \<and> (\<forall>e\<in>set db. \<not> is_plan_event e)
       \<and> (1 \<le> max_replan_attempts self \<and> i < max_plan_iterations self \<longrightarrow>
            (\<exists>r d3. d2 = ProposePlan task
                             (if truthy (get rv ''feedback'') then get rv ''feedback''
                              else JStr ''Reviewer requested a re-plan during execution.'')
                             (Some plan) r # d3))
       \<and> (\<not> 1 \<le> max_replan_attempts self \<longrightarrow>
            d2 = [] \<and> res = Inl (RuntimeError
                                  (''Exceeded maximum execution replans for task ''
                                   @ [CHR 0x27] @ name task @ [CHR 0x27] @ ''.'')))
       \<and> (1 \<le> max_replan_attempts self \<and> \<not> i < max_plan_iterations self \<longrightarrow>
            d2 = [] \<and> res = Inl (RuntimeError
                                  (''Exceeded maximum plan attempts for task ''
                                   @ [CHR 0x27] @ name task @ [CHR 0x27] @ ''.'')))"
proof -
  let ?e = "ReviewStep t s out a (Inr rv)"
  from run_task_cases [OF assms(1)]
  consider x where "d1 @ ?e # d2 = [KickoffTask task (Inl x)]"
    | pre dp where "d1 @ ?e # d2 = pre @ dp"
        "\<forall>e\<in>set pre. \<not> is_review_step e \<and> \<not> is_plan_event e"
        "plan_loop py self task 0 JNull None (tr @ pre) = (res, (tr @ pre) @ dp)"
    by blast
  then show ?thesis
  proof cases
    case 1
    then show ?thesis by (cases d1) simp_all
  next
    case 2
    from split_at [OF 2(1) [symmetric]]
    consider (inpre) zs where "pre = d1 @ ?e # zs"
      | (inplan) zs where "d1 = pre @ zs" "dp = zs @ ?e # d2"
      by blast
    then show ?thesis
    proof cases
      case inpre
      with 2(2) show ?thesis by simp
    next
      case inplan
      from plan_loop_replan_next [OF 2(3) inplan(2) assms(2,3)]
      obtain da plan i prv db where
        A: "zs = da @ ReviewPlan task plan i (Inr prv) # db"
        and B: "\<forall>e\<in>set db. \<not> is_plan_event e"
        and F: "1 \<le> max_replan_attempts self \<and> i < max_plan_iterations self \<longrightarrow>
            (\<exists>r d3. d2 = ProposePlan task
                             (if truthy (get rv ''feedback'') then get rv ''feedback''
                              else replan_default) (Some plan) r # d3)"
          "\<not> 1 \<le> max_replan_attempts self \<longrightarrow>
            d2 = [] \<and> res = Inl (RuntimeError (replan_bound_message task))"
          "1 \<le> max_replan_attempts self \<and> \<not> i < max_plan_iterations self \<longrightarrow>
            d2 = [] \<and> res = Inl (RuntimeError (plan_bound_message task))"
        by (elim exE conjE)
      from inplan(1) A have d1: "d1 = (pre @ da) @ ReviewPlan task plan i (Inr prv) # db"
        by simp
      note F' = F [unfolded replan_default_def replan_bound_message_def plan_bound_message_def]
      show ?thesis
        apply (rule exI [of _ "pre @ da"], rule exI [of _ plan], rule exI [of _ i],
            rule exI [of _ prv], rule exI [of _ db])
        apply (intro conjI d1 B F')
        done
    qed
  qed
qed

lemma last_execution_after:
  assumes "is_plan_event e" "\<forall>x\<in>set dx. \<not> is_plan_event x"
  shows "last_execution (xs @ e # dx) = dx"
proof -
  have "takeWhile (\<lambda>e. \<not> is_plan_event e) (rev dx @ e # rev xs) = rev dx"
    using assms by (simp add: takeWhile_append)
  then show ?thesis by (simp add: last_execution_def)
qed

lemma plan_loop_results:
  assumes "plan_loop py self task n fb prev tr = (Inr r, tr @ d)"
  shows "\<exists>da plan i prv dx. d = da @ ReviewPlan task plan i (Inr prv) # dx
       \<and> (\<forall>e\<in>set dx. \<not> is_plan_event e)
       \<and> step_results r = results_of dx
       \<and> length (filter is_execute_step dx) = length (step_results r)
       \<and> plan_of r = plan"
  using assms
proof (induction py self task n fb prev tr arbitrary: d rule: plan_loop_induct)
  case (iteration py self task n fb prev tr)
  have later: ?case
    if pre: "d = pre @ d'"
      and ih: "\<exists>da plan i prv dx. d' = da @ ReviewPlan task plan i (Inr prv) # dx
       \<and> (\<forall>e\<in>set dx. \<not> is_plan_event e)
       \<and> step_results r = results_of dx
       \<and> length (filter is_execute_step dx) = length (step_results r)
       \<and> plan_of r = plan"
    for pre d'
  proof -
    from ih obtain da plan i prv dx where
      A: "d' = da @ ReviewPlan task plan i (Inr prv) # dx"
      and B: "\<forall>e\<in>set dx. \<not> is_plan_event e" "step_results r = results_of dx"
        "length (filter is_execute_step dx) = length (step_results r)" "plan_of r = plan"
      by (elim exE conjE)
    from pre A have d: "d = (pre @ da) @ ReviewPlan task plan i (Inr prv) # dx" by simp
    show ?thesis
      apply (rule exI [of _ "pre @ da"], rule exI [of _ plan], rule exI [of _ i],
          rule exI [of _ prv], rule exI [of _ dx])
      apply (intro conjI d B)
      done
  qed
  from iteration.prems show ?case
  proof (cases rule: plan_loop_cases)
    case (rejected plan prv dr)
    from rejected(5) have pre: "d = [ProposePlan task fb prev (Inr plan),
                                    ReviewPlan task plan (n + 1) (Inr prv)] @ dr" by simp
    from iteration.IH(1) [OF rejected(1-4) rejected(6)]
    show ?thesis by (rule later [OF pre])
  next
    case (execution_ends plan prv de re)
    from execution_ends(5) obtain fb' where re: "re = Inr (Some r, fb')" by auto
    note ex = execution_ends(4) [unfolded re]
    note R = execute_plan_results [OF ex]
    from R have B: "step_results r = results_of de"
      "length (filter is_execute_step de) = length (step_results r)" "plan_of r = plan"
      by simp_all
    from execution_ends(3)
    have d: "d = [ProposePlan task fb prev (Inr plan)] @ ReviewPlan task plan (n + 1) (Inr prv) # de"
      by simp
    show ?thesis
      apply (rule exI [of _ "[ProposePlan task fb prev (Inr plan)]"], rule exI [of _ plan],
          rule exI [of _ "n + 1"], rule exI [of _ prv], rule exI [of _ de])
      apply (intro conjI d execute_plan_events [OF ex] B)
      done
  next
    case (replanned plan prv de fb' dr)
    from replanned(7) have pre: "d = (ProposePlan task fb prev (Inr plan)
                                    # ReviewPlan task plan (n + 1) (Inr prv) # de) @ dr" by simp
    from iteration.IH(2) [OF replanned(1-6) replanned(8)]
    show ?thesis by (rule later [OF pre])
  qed simp_all
qed

lemma plan_verdicts_simps [simp]:
  "plan_verdicts [] = []"
  "plan_verdicts (e # es) = verdict_of e @ plan_verdicts es"
  "plan_verdicts (xs @ ys) = plan_verdicts xs @ plan_verdicts ys"
  by (simp_all add: plan_verdicts_def)

lemma planning_trace_counts:
  "length (filter is_propose_plan (planning_trace task n fb prev rounds)) = length rounds
   \<and> length (filter is_review_plan (planning_trace task n fb prev rounds)) = length rounds"
  by (induction rounds arbitrary: n fb prev) auto

lemma verdict_shift:
  assumes "False # take k vs = replicate k False @ [True]"
  shows "\<exists>k'. k = Suc k' \<and> take (Suc k') vs = replicate k' False @ [True]"
  using assms by (cases k) simp_all

lemma verdict_first:
  assumes "True # xs = replicate k False @ [True]"
  shows "k = 0"
  using assms by (cases k) simp_all

lemma plan_loop_planning:
  assumes "plan_loop py self task n fb prev tr = (res, tr @ d)"
    and "take (Suc k) (plan_verdicts d) = replicate k False @ [True]"
  shows "\<exists>rounds. length rounds = Suc k
          \<and> upto_approval d = planning_trace task n fb prev rounds
          \<and> n + int (Suc k) \<le> max_plan_iterations self"
  using assms
proof (induction py self task n fb prev tr arbitrary: d k rule: plan_loop_induct)
  case (iteration py self task n fb prev tr)
  note v = iteration.prems(2)
  have first: ?case
    if "n < max_plan_iterations self" "truthy (get prv ''approved'')"
      "d = ProposePlan task fb prev (Inr plan) # ReviewPlan task plan (n + 1) (Inr prv) # de"
    for plan prv de
  proof -
    from v that(2,3) have "True # take k (plan_verdicts de) = replicate k False @ [True]"
      by simp
    then have k: "k = 0" by (rule verdict_first)
    show ?thesis
      apply (rule exI [of _ "[(plan, prv)]"])
      using that k apply simp
      done
  qed
  from iteration.prems(1) show ?case
  proof (cases rule: plan_loop_cases)
    case exhausted
    with v show ?thesis by simp
  next
    case (propose_fails x)
    with v show ?thesis by simp
  next
    case (review_fails plan x)
    with v show ?thesis by simp
  next
    case (rejected plan prv dr)
    from v rejected(4,5) have "False # take k (plan_verdicts dr) = replicate k False @ [True]"
      by simp
    from verdict_shift [OF this] obtain k' where k': "k = Suc k'"
      "take (Suc k') (plan_verdicts dr) = replicate k' False @ [True]"
      by blast
    from iteration.IH(1) [OF rejected(1-4) rejected(6) k'(2)]
    obtain rounds where r: "length rounds = Suc k'"
      "upto_approval dr = planning_trace task (n + 1) (get prv ''feedback'') (Some plan) rounds"
      "n + 1 + int (Suc k') \<le> max_plan_iterations self"
      by (elim exE conjE)
    show ?thesis
      apply (rule exI [of _ "(plan, prv) # rounds"])
      using r k' rejected(4,5) apply simp
      done
  next
    case (execution_ends plan prv de re)
    from first [OF execution_ends(1-3)] show ?thesis .
  next
    case (replan_bound plan prv de fb')
    from first [OF replan_bound(1-3)] show ?thesis .
  next
    case (replanned plan prv de fb' dr)
    from first [OF replanned(1,4) replanned(7)] show ?thesis .
  qed
qed

lemma no_plan_events_prefix:
  assumes "\<forall>e\<in>set pre. \<not> is_plan_event e"
  shows "plan_verdicts (pre @ dp) = plan_verdicts dp
       \<and> upto_approval (pre @ dp) = pre @ upto_approval dp
       \<and> filter is_propose_plan pre = [] \<and> filter is_review_plan pre = []"
  using assms
proof (induction pre)
  case Nil
  then show ?case by simp
next
  case (Cons e pre)
  then show ?case by (cases e) simp_all
qed

lemma attempt_loop_error:
  "attempt_loop self task step appr a fb atts tr = (Inl e, tr') \<Longrightarrow> \<exists>x. e = Propagated x"
proof (induction self task step appr a fb atts tr rule: attempt_loop_induct)
  case (round self task step appr a fb atts tr)
  note run = round.prems
  show ?case
  proof (cases "a \<le> max_step_iterations self")
    case False
    from run [unfolded attempt_loop_done [OF False]] show ?thesis by simp
  next
    case le: True
    show ?thesis
    proof (cases "execute_step self tr task step appr fb")
      case (Inl x)
      from run [unfolded attempt_loop_execute_fails [OF le Inl]] show ?thesis by auto
    next
      case ex: (Inr out)
      show ?thesis
      proof (cases "review_step self (tr @ [ExecuteStep task step appr fb (Inr out)])
                      task step out a")
        case (Inl x)
        from run [unfolded attempt_loop_review_fails [OF le ex Inl]] show ?thesis by auto
      next
        case rvw: (Inr rv)
        consider (ap) "truthy (get rv ''approved'')"
          | (rp) "\<not> truthy (get rv ''approved'')" "truthy (get rv ''requires_replan'')"
          | (re) "\<not> truthy (get rv ''approved'')" "\<not> truthy (get rv ''requires_replan'')"
          by blast
        then show ?thesis
        proof cases
          case ap
          from run [unfolded attempt_loop_approved [OF le ex rvw ap]] show ?thesis by simp
        next
          case rp
          from run [unfolded attempt_loop_replan [OF le ex rvw rp]] show ?thesis by simp
        next
          case re
          from round.IH [OF le ex rvw re, unfolded step_result_def [symmetric],
              OF run [unfolded attempt_loop_retry [OF le ex rvw re]]]
          show ?thesis .
        qed
      qed
    qed
  qed
qed

lemma step_loop_error:
  "step_loop py self task steps idx allr appr tr = (Inl e, tr') \<Longrightarrow>
   (\<exists>x. e = Propagated x) \<or> (\<exists>s. e = RuntimeError (step_bound_message py self s))"
proof (induction steps arbitrary: idx allr appr tr)
  case Nil
  then show ?case by simp
next
  case (Cons raw rest)
  show ?case
  proof (cases "py_dict py raw")
    case (Inl x)
    with Cons.prems show ?thesis by auto
  next
    case (Inr d0)
    define step where "step = setdefault d0 ''id'' (JStr (''step-'' @ str_int idx))"
    obtain ra tr1 where att: "attempt_loop self task step appr 1 JNull [] tr = (ra, tr1)"
      by fastforce
    note run = Cons.prems [unfolded step_loop_Cons [OF Inr step_def att]]
    show ?thesis
    proof (cases ra)
      case (Inl e')
      with run have "e = e'" by simp
      with attempt_loop_error [OF att [unfolded Inl]] show ?thesis by blast
    next
      case ok: (Inr trip)
      obtain atts appr' flag where trip: "trip = (atts, appr', flag)"
        by (cases trip) auto
      from run ok trip Cons.IH show ?thesis
        by (auto split: if_splits)
    qed
  qed
qed

lemma finalise_error:
  assumes "finalise py self task plan allr tr = (Inl e, tr')"
  shows "(\<exists>x. e = Propagated x) \<or> (\<exists>m. e = TypeError m)"
  using finalise_result [of py self task plan allr tr] assms by auto

lemma execute_plan_error:
  assumes "execute_plan py self task plan tr = (Inl e, tr')"
  shows "(\<exists>x. e = Propagated x) \<or> (\<exists>m. e = TypeError m) \<or> (\<exists>m. e = ValueError m)
       \<or> (\<exists>s. e = RuntimeError (step_bound_message py self s))"
proof -
  from execute_plan_extends [OF assms] obtain d where d: "tr' = tr @ d" by blast
  from assms [unfolded d] show ?thesis
  proof (cases rule: execute_plan_cases)
    case malformed
    then show ?thesis by simp
  next
    case (fails xs e')
    with step_loop_error [OF fails(1)] show ?thesis by auto
  next
    case (replan xs fb)
    then show ?thesis by simp
  next
    case (completes xs allr ds df)
    from finalise_error [OF completes(2)] show ?thesis by auto
  qed
qed

lemma replan_bound_unreachable:
  assumes "1 \<le> max_replan_attempts self"
    and "plan_loop py self task n fb prev tr = (res, tr @ d)"
  shows "res \<noteq> Inl (RuntimeError (replan_bound_message task))"
  using assms
proof (induction py self task n fb prev tr arbitrary: d rule: plan_loop_induct)
  case (iteration py self task n fb prev tr)
  note pos = iteration.prems(1)
  from iteration.prems(2) show ?case
  proof (cases rule: plan_loop_cases)
    case exhausted
    then show ?thesis by (simp add: plan_bound_message_def replan_bound_message_def)
  next
    case (rejected plan prv dr)
    from iteration.IH(1) [OF rejected(1-4) pos rejected(6)] show ?thesis .
  next
    case (execution_ends plan prv de re)
    from execution_ends(5) show ?thesis
    proof
      assume "\<exists>e. re = Inl e \<and> res = Inl e"
      then obtain e where e: "re = Inl e" "res = Inl e" by blast
      from execute_plan_error [OF execution_ends(4) [unfolded e(1)]] e(2) show ?thesis
        by (auto simp: step_bound_message_def replan_bound_message_def)
    next
      assume "\<exists>r fb'. re = Inr (Some r, fb') \<and> res = Inr r"
      then show ?thesis by auto
    qed
  next
    case (replan_bound plan prv de fb')
    with pos show ?thesis by simp
  next
    case (replanned plan prv de fb' dr)
    from iteration.IH(2) [OF replanned(1-6) pos replanned(8)] show ?thesis .
  qed simp_all
qed


section \<open>Claims about a single plan execution\<close>

text \<open>
  C9. \<^verbatim>\<open>_execute_plan\<close> raises the malformed-steps error exactly when the plan has a
  \<open>steps\<close> value that is truthy and not a list. A plan whose \<open>steps\<close> key is absent,
  null or the empty list is run as a plan without steps: the call is the tail of
  \<^verbatim>\<open>_execute_plan\<close> on an empty history, and the first thing it does is the final
  review of that empty history.
\<close>

theorem malformed_steps_iff:
  "(fst (execute_plan py self task plan tr)
      = Inl (ValueError ''Planner response must contain a 'steps' array.'')
    \<longleftrightarrow> (\<exists>v. map_of plan ''steps'' = Some v \<and> truthy v \<and> \<not> is_list v))
   \<and> (map_of plan ''steps'' = None \<or> map_of plan ''steps'' = Some JNull
        \<or> map_of plan ''steps'' = Some (JList [])
      \<longrightarrow> execute_plan py self task plan tr = finalise py self task plan [] tr
          \<and> (\<exists>d. snd (execute_plan py self task plan tr)
                 = tr @ FinalReview task plan [] (final_review self tr task plan []) # d))"
proof -
  have A: "fst (execute_plan py self task plan tr)
             = Inl (ValueError ''Planner response must contain a 'steps' array.'')"
    if "map_of plan ''steps'' = Some v" "truthy v" "\<not> is_list v" for v
    using that by (cases v) (simp_all add: execute_plan_def get_def)
  have B: "\<exists>v. map_of plan ''steps'' = Some v \<and> truthy v \<and> \<not> is_list v"
    if "fst (execute_plan py self task plan tr) = Inl (ValueError m)" for m
  proof (cases "truthy (get plan ''steps'')")
    case False
    with that finalise_no_value_error [of py self task plan "[]" tr m] show ?thesis
      by (simp add: execute_plan_def)
  next
    case True
    then obtain v where v: "map_of plan ''steps'' = Some v" "truthy v"
      by (auto simp: get_def split: option.splits)
    show ?thesis
    proof (cases "is_list v")
      case False
      with v show ?thesis by blast
    next
      case True
      then obtain xs where "v = JList xs" by (cases v) simp_all
      with v that step_loop_no_value_error [of py self task xs 1 "[]" "[]" tr m]
        finalise_no_value_error [of py self task plan _ _ m]
      show ?thesis
        by (auto simp: execute_plan_def get_def split: prod.splits sum.splits steps_outcome.splits)
    qed
  qed
  have C: "execute_plan py self task plan tr = finalise py self task plan [] tr"
    if "map_of plan ''steps'' = None \<or> map_of plan ''steps'' = Some JNull
        \<or> map_of plan ''steps'' = Some (JList [])"
    using that by (auto simp: execute_plan_def get_def)
  have D: "\<exists>d. snd (finalise py self task plan [] tr)
                 = tr @ FinalReview task plan [] (final_review self tr task plan []) # d"
    using finalise_first_event [of py self task plan "[]" tr] by blast
  show ?thesis
  proof (intro conjI iffI impI)
    assume "fst (execute_plan py self task plan tr)
              = Inl (ValueError ''Planner response must contain a 'steps' array.'')"
    then show "\<exists>v. map_of plan ''steps'' = Some v \<and> truthy v \<and> \<not> is_list v"
      by (rule B)
  next
    assume "\<exists>v. map_of plan ''steps'' = Some v \<and> truthy v \<and> \<not> is_list v"
    then show "fst (execute_plan py self task plan tr)
              = Inl (ValueError ''Planner response must contain a 'steps' array.'')"
      using A by blast
  next
    assume h: "map_of plan ''steps'' = None \<or> map_of plan ''steps'' = Some JNull
        \<or> map_of plan ''steps'' = Some (JList [])"
    then show "execute_plan py self task plan tr = finalise py self task plan [] tr"
      by (rule C)
    from C [OF h] D
    show "\<exists>d. snd (execute_plan py self task plan tr)
                 = tr @ FinalReview task plan [] (final_review self tr task plan []) # d"
      by simp
  qed
qed

theorem malformed_steps_iff_witness:
  "map_of no_steps_plan ''steps'' = None
   \<and> execute_plan interp wf_ok demo_task no_steps_plan []
       = finalise interp wf_ok demo_task no_steps_plan [] []
   \<and> fst (execute_plan interp wf_ok demo_task bad_steps_plan [])
       = Inl (ValueError ''Planner response must contain a 'steps' array.'')"
  using malformed_steps_iff [of interp wf_ok demo_task no_steps_plan "[]"]
    malformed_steps_iff [of interp wf_ok demo_task bad_steps_plan "[]"]
  by (simp add: no_steps_plan_def bad_steps_plan_def)

text \<open>
  C8. For an approved plan whose \<open>steps\<close> is the empty list, no step is executed or
  reviewed, the final review is still called, on an empty history, and the call ends in
  one of three ways only: a run result whose \<open>step_results\<close> is empty, an exception of
  the final review, the synthesis or the file write coming through, or the report failing
  to render. When the final review answers, the coordinator (if there is one) answers,
  the report renders and is written, the run result is returned.
\<close>

theorem zero_step_plan_completes:
  assumes "get plan ''steps'' = JList []"
  shows "(\<exists>d. snd (execute_plan py self task plan tr)
               = tr @ FinalReview task plan [] (final_review self tr task plan []) # d
             \<and> (\<forall>e\<in>set d. \<not> is_execute_step e \<and> \<not> is_review_step e))
       \<and> ((\<exists>r. fst (execute_plan py self task plan tr) = Inr (Some r, JNull)
                \<and> step_results r = [] \<and> plan_of r = plan \<and> task_of r = task)
          \<or> (\<exists>x. fst (execute_plan py self task plan tr) = Inl (Propagated x))
          \<or> (\<exists>m. fst (execute_plan py self task plan tr) = Inl (TypeError m)))
       \<and> (\<forall>summary narrative tr2 text.
             final_review self tr task plan [] = Inr summary
             \<and> ((coordinator self = None \<and> narrative = None
                    \<and> tr2 = tr @ [FinalReview task plan [] (Inr summary)])
                 \<or> (\<exists>c t. coordinator self = Some c
                      \<and> synthesise_outcome c (tr @ [FinalReview task plan [] (Inr summary)])
                            task plan [] summary = Inr t
                      \<and> narrative = Some t
                      \<and> tr2 = tr @ [FinalReview task plan [] (Inr summary),
                                    SynthesiseOutcome task plan [] summary (Inr t)]))
             \<and> to_markdown py \<lparr>task_of = task, plan_of = plan, step_results = [],
                    reviewer_summary = summary, coordinator_summary = narrative\<rparr> = Inr text
             \<and> write_text self tr2 (name task) text = Inr ()
             \<longrightarrow> execute_plan py self task plan tr
                 = (Inr (Some \<lparr>task_of = task, plan_of = plan, step_results = [],
                        reviewer_summary = summary, coordinator_summary = narrative\<rparr>, JNull),
                    tr2 @ [WriteText (name task) text (Inr ())]))"
proof -
  have eq: "execute_plan py self task plan tr = finalise py self task plan [] tr"
    using assms by (simp add: execute_plan_def)
  show ?thesis
    unfolding eq
  proof (intro conjI allI impI)
    show "\<exists>d. snd (finalise py self task plan [] tr)
               = tr @ FinalReview task plan [] (final_review self tr task plan []) # d
             \<and> (\<forall>e\<in>set d. \<not> is_execute_step e \<and> \<not> is_review_step e)"
      by (rule finalise_first_event)
    show "(\<exists>r. fst (finalise py self task plan [] tr) = Inr (Some r, JNull)
                \<and> step_results r = [] \<and> plan_of r = plan \<and> task_of r = task)
          \<or> (\<exists>x. fst (finalise py self task plan [] tr) = Inl (Propagated x))
          \<or> (\<exists>m. fst (finalise py self task plan [] tr) = Inl (TypeError m))"
      by (rule finalise_result)
  next
    fix summary narrative tr2 md
    assume h: "final_review self tr task plan [] = Inr summary
             \<and> ((coordinator self = None \<and> narrative = None
                    \<and> tr2 = tr @ [FinalReview task plan [] (Inr summary)])
                 \<or> (\<exists>c t. coordinator self = Some c
                      \<and> synthesise_outcome c (tr @ [FinalReview task plan [] (Inr summary)])
                            task plan [] summary = Inr t
                      \<and> narrative = Some t
                      \<and> tr2 = tr @ [FinalReview task plan [] (Inr summary),
                                    SynthesiseOutcome task plan [] summary (Inr t)]))
             \<and> to_markdown py \<lparr>task_of = task, plan_of = plan, step_results = [],
                    reviewer_summary = summary, coordinator_summary = narrative\<rparr> = Inr md
             \<and> write_text self tr2 (name task) md = Inr ()"
    show "finalise py self task plan [] tr
                 = (Inr (Some \<lparr>task_of = task, plan_of = plan, step_results = [],
                        reviewer_summary = summary, coordinator_summary = narrative\<rparr>, JNull),
                    tr2 @ [WriteText (name task) md (Inr ())])"
      by (rule finalise_returns) (use h in blast)+
  qed
qed


theorem zero_step_plan_completes_witness:
  "get empty_plan ''steps'' = JList []
   \<and> fst (execute_plan interp wf_ok demo_task empty_plan []) = Inr (Some demo_result, JNull)
   \<and> step_results demo_result = []"
proof -
  have s: "get empty_plan ''steps'' = JList []"
    by (simp add: get_def empty_plan_def)
  have f: "final_review wf_ok [] demo_task empty_plan []
           = Inr [(''approved'', JBool True), (''feedback'', JStr ''ok'')]"
    by (simp add: wf_ok_def scripted_def)
  have c: "coordinator wf_ok = None"
    by (simp add: wf_ok_def scripted_def)
  have w: "write_text wf_ok tr p t = Inr ()" for tr p t
    by (simp add: wf_ok_def scripted_def)
  note z = zero_step_plan_completes [OF s, of interp wf_ok demo_task "[]",
              THEN conjunct2, THEN conjunct2, rule_format,
              of "[(''approved'', JBool True), (''feedback'', JStr ''ok'')]" None]
  have p: "final_review wf_ok [] demo_task empty_plan []
             = Inr [(''approved'', JBool True), (''feedback'', JStr ''ok'')]
           \<and> ((coordinator wf_ok = None \<and> None = None
                 \<and> [FinalReview demo_task empty_plan []
                       (Inr [(''approved'', JBool True), (''feedback'', JStr ''ok'')])]
                    = [] @ [FinalReview demo_task empty_plan []
                       (Inr [(''approved'', JBool True), (''feedback'', JStr ''ok'')])])
                \<or> (\<exists>c t. coordinator wf_ok = Some c
                     \<and> synthesise_outcome c ([] @ [FinalReview demo_task empty_plan []
                           (Inr [(''approved'', JBool True), (''feedback'', JStr ''ok'')])])
                         demo_task empty_plan []
                         [(''approved'', JBool True), (''feedback'', JStr ''ok'')] = Inr t
                     \<and> None = Some t
                     \<and> [FinalReview demo_task empty_plan []
                          (Inr [(''approved'', JBool True), (''feedback'', JStr ''ok'')])]
                       = [] @ [FinalReview demo_task empty_plan []
                          (Inr [(''approved'', JBool True), (''feedback'', JStr ''ok'')]),
                          SynthesiseOutcome demo_task empty_plan []
                            [(''approved'', JBool True), (''feedback'', JStr ''ok'')] (Inr t)]))
           \<and> to_markdown interp \<lparr>task_of = demo_task, plan_of = empty_plan, step_results = [],
                 reviewer_summary = [(''approved'', JBool True), (''feedback'', JStr ''ok'')],
                 coordinator_summary = None\<rparr>
               = Inr (projr (to_markdown interp demo_result))
           \<and> write_text wf_ok [FinalReview demo_task empty_plan []
                       (Inr [(''approved'', JBool True), (''feedback'', JStr ''ok'')])]
                 (name demo_task) (projr (to_markdown interp demo_result)) = Inr ()"
    by (simp add: f c w demo_md demo_result_def [symmetric])
  from z [OF p] s show ?thesis
    by (simp add: demo_result_def)
qed

text \<open>
  C4. When the review of a step's attempt number \<open>max_step_iterations\<close> is neither an
  approval nor a replan request (the loop reaches that attempt only after every earlier
  attempt of the step was turned down the same way), nothing is called after it: the
  plan execution raises the RuntimeError whose message quotes the step's id and the bound.
\<close>

theorem step_bound_exceeded:
  assumes "execute_plan py self task plan tr
           = (res, tr @ d1 @ ReviewStep t s out a (Inr rv) # d2)"
    and "a = max_step_iterations self"
    and "\<not> truthy (get rv ''approved'')"
    and "\<not> truthy (get rv ''requires_replan'')"
  shows "d2 = []
       \<and> res = Inl (RuntimeError
                     (''Step '' @ [CHR 0x27] @ py_str py (get s ''id'') @ [CHR 0x27]
                      @ '' was not approved after '' @ str_int (max_step_iterations self)
                      @ '' attempts.''))"
  using execute_plan_next [OF assms(1) refl] assms(2-4)
  by (simp add: step_bound_message_def)

theorem step_bound_exceeded_witness:
  "execute_plan interp wf_reject demo_task one_step_plan []
   = (Inl (RuntimeError ''Step 'step-1' was not approved after 3 attempts.''),
      [] @ [ExecuteStep demo_task step1 [] JNull (Inr done_output),
            ReviewStep demo_task step1 done_output 1 (Inr reject),
            ExecuteStep demo_task step1 [] (JStr ''again'') (Inr done_output),
            ReviewStep demo_task step1 done_output 2 (Inr reject),
            ExecuteStep demo_task step1 [] (JStr ''again'') (Inr done_output)]
         @ ReviewStep demo_task step1 done_output 3 (Inr reject) # [])
   \<and> 3 = max_step_iterations wf_reject
   \<and> \<not> truthy (get reject ''approved'') \<and> \<not> truthy (get reject ''requires_replan'')
   \<and> Inl (RuntimeError ''Step 'step-1' was not approved after 3 attempts.'')
       = (Inl (RuntimeError
                     (''Step '' @ [CHR 0x27] @ py_str interp (get step1 ''id'') @ [CHR 0x27]
                      @ '' was not approved after '' @ str_int (max_step_iterations wf_reject)
                      @ '' attempts.'')) :: error + TaskRunResult option \<times> json)"
proof -
  have run: "execute_plan interp wf_reject demo_task one_step_plan []
   = (Inl (RuntimeError ''Step 'step-1' was not approved after 3 attempts.''),
      [] @ [ExecuteStep demo_task step1 [] JNull (Inr done_output),
            ReviewStep demo_task step1 done_output 1 (Inr reject),
            ExecuteStep demo_task step1 [] (JStr ''again'') (Inr done_output),
            ReviewStep demo_task step1 done_output 2 (Inr reject),
            ExecuteStep demo_task step1 [] (JStr ''again'') (Inr done_output)]
         @ ReviewStep demo_task step1 done_output 3 (Inr reject) # [])"
    by code_simp
  have m: "3 = max_step_iterations wf_reject"
    by (simp add: wf_reject_def scripted_def)
  have r: "\<not> truthy (get reject ''approved'')" "\<not> truthy (get reject ''requires_replan'')"
    by (simp_all add: reject_def get_def)
  from step_bound_exceeded [OF run m r] run m r show ?thesis
    by simp
qed

text \<open>
  C7. A step review that sets both \<open>approved\<close> and \<open>requires_replan\<close> counts as an
  approval. The call that follows it is the first attempt of the next step, made without
  feedback and with this attempt's result appended to the approved results, or, after the
  last step, the final review of a history that ends with this result. The execution
  does not end there with a replan request; it can only end there when \<^verbatim>\<open>dict()\<close>
  of the next raw step raises.
\<close>

theorem approval_takes_precedence:
  assumes "execute_plan py self task plan tr
           = (res, tr @ d1 @ ReviewStep t s out a (Inr rv) # d2)"
    and "truthy (get rv ''approved'')"
    and "truthy (get rv ''requires_replan'')"
  shows "(\<exists>d0 p fb. d1 = d0 @ [ExecuteStep task s p fb (Inr out)]
          \<and> ((\<exists>s' r d3. d2 = ExecuteStep task s' (p @ [step_result s out rv a]) JNull r # d3)
             \<or> (\<exists>allr r d3. d2 = FinalReview task plan (allr @ [step_result s out rv a]) r # d3)
             \<or> (d2 = [] \<and> (\<exists>x. res = Inl (Propagated x)))))
       \<and> (d2 = [] \<longrightarrow> (\<forall>fb. res \<noteq> Inr (None, fb)))"
proof -
  note N = execute_plan_next [OF assms(1) refl]
  note N4 = N [THEN conjunct2, THEN conjunct2, THEN conjunct2, THEN conjunct1]
  from N4 obtain d0 p fb where d0: "d1 = d0 @ [ExecuteStep task s p fb (Inr out)]"
    and ap: "truthy (get rv ''approved'') \<longrightarrow>
               (d2 = [] \<and> (\<exists>x. res = Inl (Propagated x)))
               \<or> (\<exists>s' r d3. d2 = ExecuteStep task s' (p @ [step_result s out rv a]) JNull r # d3)
               \<or> (\<exists>allr r d3. d2 = FinalReview task plan (allr @ [step_result s out rv a]) r # d3)"
    by (elim exE conjE)
  from ap assms(2)
  have nx: "(d2 = [] \<and> (\<exists>x. res = Inl (Propagated x)))
               \<or> (\<exists>s' r d3. d2 = ExecuteStep task s' (p @ [step_result s out rv a]) JNull r # d3)
               \<or> (\<exists>allr r d3. d2 = FinalReview task plan (allr @ [step_result s out rv a]) r # d3)"
    by (rule mp)
  have c2: "d2 = [] \<longrightarrow> (\<forall>fb. res \<noteq> Inr (None, fb))"
    using nx by (elim disjE exE conjE) simp_all
  have c1: "\<exists>d0 p fb. d1 = d0 @ [ExecuteStep task s p fb (Inr out)]
          \<and> ((\<exists>s' r d3. d2 = ExecuteStep task s' (p @ [step_result s out rv a]) JNull r # d3)
             \<or> (\<exists>allr r d3. d2 = FinalReview task plan (allr @ [step_result s out rv a]) r # d3)
             \<or> (d2 = [] \<and> (\<exists>x. res = Inl (Propagated x))))"
    apply (rule exI [of _ d0], rule exI [of _ p], rule exI [of _ fb])
    apply (rule conjI [OF d0])
    using nx apply (elim disjE)
      apply (rule disjI2, rule disjI2, assumption)
     apply (rule disjI1, assumption)
    apply (rule disjI2, rule disjI1, assumption)
    done
  from c1 c2 show ?thesis by (rule conjI)
qed

theorem approval_takes_precedence_witness:
  "take 3 (snd (execute_plan interp wf_both demo_task two_step_plan []))
   = [ExecuteStep demo_task step1 [] JNull (Inr done_output),
      ReviewStep demo_task step1 done_output 1 (Inr approve_and_replan),
      ExecuteStep demo_task step2 [step_result step1 done_output approve_and_replan 1] JNull
        (Inr done_output)]
   \<and> truthy (get approve_and_replan ''approved'')
   \<and> truthy (get approve_and_replan ''requires_replan'')
   \<and> (\<exists>d0 p fb. [ExecuteStep demo_task step1 [] JNull (Inr done_output)]
                    = d0 @ [ExecuteStep demo_task step1 p fb (Inr done_output)]
          \<and> ((\<exists>s' r d3. drop 2 (snd (execute_plan interp wf_both demo_task two_step_plan []))
                  = ExecuteStep demo_task s'
                      (p @ [step_result step1 done_output approve_and_replan 1]) JNull r # d3)
             \<or> (\<exists>allr r d3. drop 2 (snd (execute_plan interp wf_both demo_task two_step_plan []))
                  = FinalReview demo_task two_step_plan
                      (allr @ [step_result step1 done_output approve_and_replan 1]) r # d3)
             \<or> (drop 2 (snd (execute_plan interp wf_both demo_task two_step_plan [])) = []
                \<and> (\<exists>x. fst (execute_plan interp wf_both demo_task two_step_plan [])
                        = Inl (Propagated x)))))"
proof -
  have run: "execute_plan interp wf_both demo_task two_step_plan []
    = (fst (execute_plan interp wf_both demo_task two_step_plan []),
       [] @ [ExecuteStep demo_task step1 [] JNull (Inr done_output)]
        @ ReviewStep demo_task step1 done_output 1 (Inr approve_and_replan)
        # drop 2 (snd (execute_plan interp wf_both demo_task two_step_plan [])))"
    by code_simp
  have t3: "take 3 (snd (execute_plan interp wf_both demo_task two_step_plan []))
   = [ExecuteStep demo_task step1 [] JNull (Inr done_output),
      ReviewStep demo_task step1 done_output 1 (Inr approve_and_replan),
      ExecuteStep demo_task step2 [step_result step1 done_output approve_and_replan 1] JNull
        (Inr done_output)]"
    by code_simp
  have r: "truthy (get approve_and_replan ''approved'')"
    "truthy (get approve_and_replan ''requires_replan'')"
    by (simp_all add: approve_and_replan_def get_def)
  note T = approval_takes_precedence [OF run r, THEN conjunct1]
  show ?thesis
    by (intro conjI t3 r T)
qed

text \<open>
  C6. Take a step of the plan (any raw step, at any point of the loop over the steps)
  whose attempt loop ends with an approved attempt, numbered \<open>a\<close>. The log of that loop
  holds exactly \<open>a\<close> executions and \<open>a\<close> reviews, all of this step and all with the same
  prior results; \<open>a\<close> is within the bound; of the step's attempts only the approved one
  counts as approved; and every execution made afterwards in the same plan attempt gets,
  as prior results, the earlier approved results, then that one result, then results of
  later steps only.
\<close>

theorem approved_step_round_trips:
  assumes "py_dict py raw_step = Inr d0"
    and "step = setdefault d0 ''id'' (JStr (''step-'' @ str_int index))"
    and "attempt_loop self task step approved_results 1 JNull [] tr
         = (Inr (step_attempts, approved', flag), tr1)"
    and "step_attempts \<noteq> []"
    and "truthy (get (review (last step_attempts)) ''approved'')"
    and "step_loop py self task (raw_step # rest) index all_results approved_results tr
         = (res, tr2)"
  shows "\<exists>d d'. tr1 = tr @ d \<and> tr2 = tr1 @ d'
        \<and> (\<forall>e\<in>set d. step_event task step approved_results e)
        \<and> int (length (filter is_execute_step d)) = attempt_of (last step_attempts)
        \<and> int (length (filter is_review_step d)) = attempt_of (last step_attempts)
        \<and> attempt_of (last step_attempts) \<le> max_step_iterations self
        \<and> filter is_approved step_attempts = [last step_attempts]
        \<and> (\<forall>t s p fb r. ExecuteStep t s p fb r \<in> set d' \<longrightarrow>
              (\<exists>xs. p = approved_results @ [last step_attempts] @ xs
                    \<and> set xs \<subseteq> set (results_of d')))"
proof -
  from attempt_loop_extends [OF assms(3)] obtain d where d: "tr1 = tr @ d" by blast
  note att = assms(3) [unfolded d]
  note T = attempt_loop_trace [OF att]
  from T have atts: "step_attempts = results_of d" by simp
  from assms(5) have ap: "is_approved (last step_attempts)"
    by (simp add: is_approved_def)
  from T atts assms(4) ap have flag: "\<not> flag" by simp
  from T atts assms(4) ap
  have appr': "approved' = approved_results @ [last step_attempts]" by simp
  from T atts assms(4) ap
  have one: "filter is_approved step_attempts = [last step_attempts]" by simp
  from T atts have cnt: "length (filter is_execute_step d) = length step_attempts"
    "length (filter is_review_step d) = length step_attempts" by simp_all
  from T atts
  have num: "map attempt_of step_attempts = map (\<lambda>k. 1 + int k) [0..<length step_attempts]"
    by simp
  from assms(4) have "attempt_of (last step_attempts) = last (map attempt_of step_attempts)"
    by (simp add: last_map)
  also from assms(4) have "\<dots> = int (length step_attempts)"
    unfolding num by (cases "length step_attempts") (simp_all del: upt_Suc add: last_map)
  finally have a: "attempt_of (last step_attempts) = int (length step_attempts)" .
  from T atts assms(4) have le: "attempt_of (last step_attempts) \<le> max_step_iterations self"
    by simp
  note run = assms(6) [unfolded step_loop_Cons [OF assms(1,2,3)]]
  from run flag assms(4,5)
  have rec0: "step_loop py self task rest (index + 1) (all_results @ step_attempts) approved' tr1
              = (res, tr2)"
    by simp
  from step_loop_extends [OF rec0] obtain d' where d': "tr2 = tr1 @ d'" by blast
  note rec = rec0 [unfolded d']
  have prior: "\<exists>xs. p = approved_results @ [last step_attempts] @ xs
                    \<and> set xs \<subseteq> set (results_of d')"
    if "ExecuteStep t s p fb r \<in> set d'" for t s p fb r
    using step_loop_prior [OF rec that] unfolding appr' by auto
  show ?thesis
    apply (rule exI [of _ d], rule exI [of _ d'])
    apply (intro conjI d d' attempt_loop_events [OF att] le one)
      apply (simp add: cnt a)
     apply (simp add: cnt a)
    using prior apply blast
    done
qed

theorem approved_step_round_trips_witness:
  "attempt_loop wf_second_try demo_task step1 [] 1 JNull [] []
     = (Inr (second_try_attempts, [last second_try_attempts], False), second_try_log)
   \<and> truthy (get (review (last second_try_attempts)) ''approved'')
   \<and> attempt_of (last second_try_attempts) = 2
   \<and> (\<exists>d d'. second_try_log = [] @ d
        \<and> snd (step_loop interp wf_second_try demo_task [JObj step1, JObj step2] 1 [] [] [])
            = second_try_log @ d'
        \<and> (\<forall>e\<in>set d. step_event demo_task step1 [] e)
        \<and> int (length (filter is_execute_step d)) = attempt_of (last second_try_attempts)
        \<and> int (length (filter is_review_step d)) = attempt_of (last second_try_attempts)
        \<and> attempt_of (last second_try_attempts) \<le> max_step_iterations wf_second_try
        \<and> filter is_approved second_try_attempts = [last second_try_attempts]
        \<and> (\<forall>t s p fb r. ExecuteStep t s p fb r \<in> set d' \<longrightarrow>
              (\<exists>xs. p = [] @ [last second_try_attempts] @ xs
                    \<and> set xs \<subseteq> set (results_of d'))))"
proof -
  have h1: "py_dict interp (JObj step1) = Inr step1"
    by (simp add: py_dict_def)
  have h2: "step1 = setdefault step1 ''id'' (JStr (''step-'' @ str_int 1))"
    by code_simp
  have h3: "attempt_loop wf_second_try demo_task step1 [] 1 JNull [] []
     = (Inr (second_try_attempts, [last second_try_attempts], False), second_try_log)"
    by code_simp
  have h4: "second_try_attempts \<noteq> []"
    by (simp add: second_try_attempts_def)
  have h5: "truthy (get (review (last second_try_attempts)) ''approved'')"
    by code_simp
  have h6: "step_loop interp wf_second_try demo_task (JObj step1 # [JObj step2]) 1 [] [] []
    = (fst (step_loop interp wf_second_try demo_task [JObj step1, JObj step2] 1 [] [] []),
       snd (step_loop interp wf_second_try demo_task [JObj step1, JObj step2] 1 [] [] []))"
    by simp
  have a: "attempt_of (last second_try_attempts) = 2"
    by (simp add: second_try_attempts_def step_result_def)
  note W = approved_step_round_trips [OF h1 h2 h3 h4 h5 h6]
  show ?thesis
    by (intro conjI h3 h5 a W)
qed

section \<open>The report\<close>




section \<open>Claims about the whole run\<close>

text \<open>
  C5. When the plan reviews of a run reject \<open>k\<close> times and then approve, the log up to
  that approval (everything before step execution is entered) is, after the coordinator's
  kickoff if there is one, exactly \<open>k + 1\<close> rounds of one proposal and one review: the
  first proposal without feedback or previous plan, each later one with the plan just
  rejected as previous plan and the feedback of its review. So \<open>propose_plan\<close> and
  \<open>review_plan\<close> are each called \<open>k + 1\<close> times, and \<open>k + 1\<close> is within
  \<open>max_plan_iterations\<close>.
\<close>

theorem plan_rejected_then_approved:
  assumes "run_task py self task tr = (res, tr @ d)"
    and "take (Suc k) (plan_verdicts d) = replicate k False @ [True]"
  shows "\<exists>pre rounds. upto_approval d = pre @ planning_trace task 0 JNull None rounds
        \<and> (\<forall>e\<in>set pre. \<not> is_plan_event e)
        \<and> length rounds = Suc k
        \<and> length (filter is_propose_plan (upto_approval d)) = Suc k
        \<and> length (filter is_review_plan (upto_approval d)) = Suc k
        \<and> int (Suc k) \<le> max_plan_iterations self"
proof -
  from run_task_cases [OF assms(1)] assms(2)
  obtain pre dp where d: "d = pre @ dp"
    and pre0: "\<forall>e\<in>set pre. \<not> is_review_step e \<and> \<not> is_plan_event e"
    and pl: "plan_loop py self task 0 JNull None (tr @ pre) = (res, (tr @ pre) @ dp)"
    by auto
  from pre0 have pre: "\<forall>e\<in>set pre. \<not> is_plan_event e" by blast
  note P = no_plan_events_prefix [OF pre, of dp]
  from assms(2) d P have v: "take (Suc k) (plan_verdicts dp) = replicate k False @ [True]"
    by simp
  from plan_loop_planning [OF pl v]
  obtain rounds where r: "length rounds = Suc k"
    "upto_approval dp = planning_trace task 0 JNull None rounds"
    "0 + int (Suc k) \<le> max_plan_iterations self"
    by (elim exE conjE)
  from d P r(2) have u: "upto_approval d = pre @ planning_trace task 0 JNull None rounds"
    by simp
  from planning_trace_counts [of task 0 JNull None rounds] P r(1)
  have c: "length (filter is_propose_plan (upto_approval d)) = Suc k"
    "length (filter is_review_plan (upto_approval d)) = Suc k"
    unfolding u by simp_all
  from r(3) have b: "int (Suc k) \<le> max_plan_iterations self" by simp
  show ?thesis
    apply (rule exI [of _ pre], rule exI [of _ rounds])
    apply (intro conjI u pre r(1) c b)
    done
qed

theorem plan_rejected_then_approved_witness:
  "run_task interp wf_third_plan demo_task []
   = (fst (run_task interp wf_third_plan demo_task []),
      [] @ snd (run_task interp wf_third_plan demo_task []))
   \<and> take (Suc 2) (plan_verdicts (snd (run_task interp wf_third_plan demo_task [])))
     = replicate 2 False @ [True]
   \<and> upto_approval (snd (run_task interp wf_third_plan demo_task []))
     = planning_trace demo_task 0 JNull None
         [(empty_plan, plan_reject), (empty_plan, plan_reject), (empty_plan, approve)]
   \<and> planning_trace demo_task 0 JNull None
         [(empty_plan, plan_reject), (empty_plan, plan_reject), (empty_plan, approve)]
     = [ProposePlan demo_task JNull None (Inr empty_plan),
        ReviewPlan demo_task empty_plan 1 (Inr plan_reject),
        ProposePlan demo_task (JStr ''more detail'') (Some empty_plan) (Inr empty_plan),
        ReviewPlan demo_task empty_plan 2 (Inr plan_reject),
        ProposePlan demo_task (JStr ''more detail'') (Some empty_plan) (Inr empty_plan),
        ReviewPlan demo_task empty_plan 3 (Inr approve)]
   \<and> (\<exists>pre rounds. upto_approval (snd (run_task interp wf_third_plan demo_task []))
                      = pre @ planning_trace demo_task 0 JNull None rounds
        \<and> (\<forall>e\<in>set pre. \<not> is_plan_event e)
        \<and> length rounds = Suc 2
        \<and> length (filter is_propose_plan
                     (upto_approval (snd (run_task interp wf_third_plan demo_task [])))) = Suc 2
        \<and> length (filter is_review_plan
                     (upto_approval (snd (run_task interp wf_third_plan demo_task [])))) = Suc 2
        \<and> int (Suc 2) \<le> max_plan_iterations wf_third_plan)"
proof -
  have run: "run_task interp wf_third_plan demo_task []
   = (fst (run_task interp wf_third_plan demo_task []),
      [] @ snd (run_task interp wf_third_plan demo_task []))"
    by simp
  have v: "take (Suc 2) (plan_verdicts (snd (run_task interp wf_third_plan demo_task [])))
     = replicate 2 False @ [True]"
    by code_simp
  have u: "upto_approval (snd (run_task interp wf_third_plan demo_task []))
     = planning_trace demo_task 0 JNull None
         [(empty_plan, plan_reject), (empty_plan, plan_reject), (empty_plan, approve)]"
    by code_simp
  have p: "planning_trace demo_task 0 JNull None
         [(empty_plan, plan_reject), (empty_plan, plan_reject), (empty_plan, approve)]
     = [ProposePlan demo_task JNull None (Inr empty_plan),
        ReviewPlan demo_task empty_plan 1 (Inr plan_reject),
        ProposePlan demo_task (JStr ''more detail'') (Some empty_plan) (Inr empty_plan),
        ReviewPlan demo_task empty_plan 2 (Inr plan_reject),
        ProposePlan demo_task (JStr ''more detail'') (Some empty_plan) (Inr empty_plan),
        ReviewPlan demo_task empty_plan 3 (Inr approve)]"
    by code_simp
  note W = plan_rejected_then_approved [OF run v]
  show ?thesis
    by (intro conjI run v u p W)
qed

text \<open>
  C3, as the code has it. After a step review that is not approved and requires a
  replan, no attempt and no step of the current plan follows: the log ends there or goes
  on with a proposal that has the current plan as previous plan. While no more than
  \<open>max_replan_attempts\<close> replan requests have been made in the run and the plan under
  execution (the plan of the last plan review before the step review, numbered \<open>i\<close>)
  is not the last allowed one, the next call is \<open>propose_plan\<close> with that plan as previous
  plan and with the review's feedback, or the fixed text when that feedback is missing or
  empty. When the plan was the last allowed one, the run ends there with the
  plan-attempts error; with a replan bound below 1 it ends with the replan error.
\<close>

theorem replan_request_ends_plan_attempt:
  assumes "run_task py self task tr = (res, tr @ d1 @ ReviewStep t s out a (Inr rv) # d2)"
    and "\<not> truthy (get rv ''approved'')" and "truthy (get rv ''requires_replan'')"
  shows "\<exists>da plan i prv db. d1 = da @ ReviewPlan task plan i (Inr prv) # db
       \<and> (\<forall>e\<in>set db. \<not> is_plan_event e)
       \<and> (d2 = [] \<or> (\<exists>fb r d3. d2 = ProposePlan task fb (Some plan) r # d3))
       \<and> (int (length (filter is_replan_request (d1 @ [ReviewStep t s out a (Inr rv)])))
              \<le> max_replan_attempts self
            \<and> i < max_plan_iterations self \<longrightarrow>
            (\<exists>r d3. d2 = ProposePlan task
                             (if truthy (get rv ''feedback'') then get rv ''feedback''
                              else JStr ''Reviewer requested a re-plan during execution.'')
                             (Some plan) r # d3))
       \<and> (max_replan_attempts self < 1 \<longrightarrow>
            d2 = [] \<and> res = Inl (RuntimeError
                                  (''Exceeded maximum execution replans for task ''
                                   @ [CHR 0x27] @ name task @ [CHR 0x27] @ ''.'')))
       \<and> (int (length (filter is_replan_request (d1 @ [ReviewStep t s out a (Inr rv)])))
              \<le> max_replan_attempts self
            \<and> \<not> i < max_plan_iterations self \<longrightarrow>
            d2 = [] \<and> res = Inl (RuntimeError
                                  (''Exceeded maximum plan attempts for task ''
                                   @ [CHR 0x27] @ name task @ [CHR 0x27] @ ''.'')))"
proof -
  from run_task_replan_next [OF assms]
  obtain da plan i prv db where
    A: "d1 = da @ ReviewPlan task plan i (Inr prv) # db"
    and B: "\<forall>e\<in>set db. \<not> is_plan_event e"
    and F1: "1 \<le> max_replan_attempts self \<and> i < max_plan_iterations self \<longrightarrow>
            (\<exists>r d3. d2 = ProposePlan task
                             (if truthy (get rv ''feedback'') then get rv ''feedback''
                              else JStr ''Reviewer requested a re-plan during execution.'')
                             (Some plan) r # d3)"
    and F2: "\<not> 1 \<le> max_replan_attempts self \<longrightarrow>
            d2 = [] \<and> res = Inl (RuntimeError
                                  (''Exceeded maximum execution replans for task ''
                                   @ [CHR 0x27] @ name task @ [CHR 0x27] @ ''.''))"
    and F3: "1 \<le> max_replan_attempts self \<and> \<not> i < max_plan_iterations self \<longrightarrow>
            d2 = [] \<and> res = Inl (RuntimeError
                                  (''Exceeded maximum plan attempts for task ''
                                   @ [CHR 0x27] @ name task @ [CHR 0x27] @ ''.''))"
    by (elim exE conjE)
  have G0: "d2 = [] \<or> (\<exists>fb r d3. d2 = ProposePlan task fb (Some plan) r # d3)"
  proof (cases "1 \<le> max_replan_attempts self")
    case False
    with F2 have "d2 = []" by simp
    then show ?thesis by (rule disjI1)
  next
    case True
    show ?thesis
    proof (cases "i < max_plan_iterations self")
      case False
      with True F3 have "d2 = []" by simp
      then show ?thesis by (rule disjI1)
    next
      case lt: True
      with \<open>1 \<le> max_replan_attempts self\<close> F1
      obtain r d3 where "d2 = ProposePlan task
                             (if truthy (get rv ''feedback'') then get rv ''feedback''
                              else JStr ''Reviewer requested a re-plan during execution.'')
                             (Some plan) r # d3"
        by blast
      then show ?thesis by (intro disjI2 exI)
    qed
  qed
  from assms(2,3)
  have one: "1 \<le> int (length (filter is_replan_request (d1 @ [ReviewStep t s out a (Inr rv)])))"
    by simp
  have G1: "int (length (filter is_replan_request (d1 @ [ReviewStep t s out a (Inr rv)])))
              \<le> max_replan_attempts self
            \<and> i < max_plan_iterations self \<longrightarrow>
            (\<exists>r d3. d2 = ProposePlan task
                             (if truthy (get rv ''feedback'') then get rv ''feedback''
                              else JStr ''Reviewer requested a re-plan during execution.'')
                             (Some plan) r # d3)"
  proof
    assume "int (length (filter is_replan_request (d1 @ [ReviewStep t s out a (Inr rv)])))
              \<le> max_replan_attempts self
            \<and> i < max_plan_iterations self"
    with one have "1 \<le> max_replan_attempts self \<and> i < max_plan_iterations self"
      by linarith
    with F1 show "\<exists>r d3. d2 = ProposePlan task
                             (if truthy (get rv ''feedback'') then get rv ''feedback''
                              else JStr ''Reviewer requested a re-plan during execution.'')
                             (Some plan) r # d3"
      by (rule mp)
  qed
  have G2: "max_replan_attempts self < 1 \<longrightarrow>
            d2 = [] \<and> res = Inl (RuntimeError
                                  (''Exceeded maximum execution replans for task ''
                                   @ [CHR 0x27] @ name task @ [CHR 0x27] @ ''.''))"
  proof
    assume "max_replan_attempts self < 1"
    then have "\<not> 1 \<le> max_replan_attempts self" by linarith
    with F2 show "d2 = [] \<and> res = Inl (RuntimeError
                                  (''Exceeded maximum execution replans for task ''
                                   @ [CHR 0x27] @ name task @ [CHR 0x27] @ ''.''))"
      by (rule mp)
  qed
  have G3: "int (length (filter is_replan_request (d1 @ [ReviewStep t s out a (Inr rv)])))
              \<le> max_replan_attempts self
            \<and> \<not> i < max_plan_iterations self \<longrightarrow>
            d2 = [] \<and> res = Inl (RuntimeError
                                  (''Exceeded maximum plan attempts for task ''
                                   @ [CHR 0x27] @ name task @ [CHR 0x27] @ ''.''))"
  proof
    assume "int (length (filter is_replan_request (d1 @ [ReviewStep t s out a (Inr rv)])))
              \<le> max_replan_attempts self
            \<and> \<not> i < max_plan_iterations self"
    with one have "1 \<le> max_replan_attempts self \<and> \<not> i < max_plan_iterations self"
      by linarith
    with F3 show "d2 = [] \<and> res = Inl (RuntimeError
                                  (''Exceeded maximum plan attempts for task ''
                                   @ [CHR 0x27] @ name task @ [CHR 0x27] @ ''.''))"
      by (rule mp)
  qed
  show ?thesis
    apply (rule exI [of _ da], rule exI [of _ plan], rule exI [of _ i],
        rule exI [of _ prv], rule exI [of _ db])
    apply (intro conjI A B G0 G1 G2 G3)
    done
qed

theorem replan_request_ends_plan_attempt_witness:
  "run_task interp wf_replan_once demo_task []
   = (fst (run_task interp wf_replan_once demo_task []),
      [] @ [first_proposal, plan_approval 1, first_execution]
         @ ReviewStep demo_task step1 done_output 1 (Inr replan)
         # drop 4 (snd (run_task interp wf_replan_once demo_task [])))
   \<and> \<not> truthy (get replan ''approved'') \<and> truthy (get replan ''requires_replan'')
   \<and> take 5 (snd (run_task interp wf_replan_once demo_task []))
     = [first_proposal, plan_approval 1, first_execution, first_review replan,
        reproposal (JStr ''redo'')]
   \<and> (\<exists>da plan i prv db.
         [first_proposal, plan_approval 1, first_execution]
           = da @ ReviewPlan demo_task plan i (Inr prv) # db
       \<and> (\<forall>e\<in>set db. \<not> is_plan_event e)
       \<and> (drop 4 (snd (run_task interp wf_replan_once demo_task [])) = []
            \<or> (\<exists>fb r d3. drop 4 (snd (run_task interp wf_replan_once demo_task []))
                            = ProposePlan demo_task fb (Some plan) r # d3))
       \<and> (int (length (filter is_replan_request
                ([first_proposal, plan_approval 1, first_execution]
                 @ [ReviewStep demo_task step1 done_output 1 (Inr replan)])))
              \<le> max_replan_attempts wf_replan_once
            \<and> i < max_plan_iterations wf_replan_once \<longrightarrow>
            (\<exists>r d3. drop 4 (snd (run_task interp wf_replan_once demo_task []))
                     = ProposePlan demo_task
                             (if truthy (get replan ''feedback'') then get replan ''feedback''
                              else JStr ''Reviewer requested a re-plan during execution.'')
                             (Some plan) r # d3))
       \<and> (max_replan_attempts wf_replan_once < 1 \<longrightarrow>
            drop 4 (snd (run_task interp wf_replan_once demo_task [])) = []
            \<and> fst (run_task interp wf_replan_once demo_task [])
              = Inl (RuntimeError
                                  (''Exceeded maximum execution replans for task ''
                                   @ [CHR 0x27] @ name demo_task @ [CHR 0x27] @ ''.'')))
       \<and> (int (length (filter is_replan_request
                ([first_proposal, plan_approval 1, first_execution]
                 @ [ReviewStep demo_task step1 done_output 1 (Inr replan)])))
              \<le> max_replan_attempts wf_replan_once
            \<and> \<not> i < max_plan_iterations wf_replan_once \<longrightarrow>
            drop 4 (snd (run_task interp wf_replan_once demo_task [])) = []
            \<and> fst (run_task interp wf_replan_once demo_task [])
              = Inl (RuntimeError
                                  (''Exceeded maximum plan attempts for task ''
                                   @ [CHR 0x27] @ name demo_task @ [CHR 0x27] @ ''.''))))"
proof -
  have run: "run_task interp wf_replan_once demo_task []
   = (fst (run_task interp wf_replan_once demo_task []),
      [] @ [first_proposal, plan_approval 1, first_execution]
         @ ReviewStep demo_task step1 done_output 1 (Inr replan)
         # drop 4 (snd (run_task interp wf_replan_once demo_task [])))"
    by code_simp
  have r: "\<not> truthy (get replan ''approved'')" "truthy (get replan ''requires_replan'')"
    by (simp_all add: replan_def get_def)
  have t5: "take 5 (snd (run_task interp wf_replan_once demo_task []))
     = [first_proposal, plan_approval 1, first_execution, first_review replan,
        reproposal (JStr ''redo'')]"
    by code_simp
  note W = replan_request_ends_plan_attempt [OF run r]
  show ?thesis
    by (intro conjI run r t5 W)
qed

text \<open>
  C3 as stated fails. With two plan attempts allowed, the replan request made under the
  second plan is followed by no proposal: the run raises. And a replan request whose
  feedback is the empty text reaches the planner as the fixed text, not as the review's
  feedback.
\<close>

theorem replan_request_counterexample:
  "max_plan_iterations wf_always_replan = 2 \<and> max_replan_attempts wf_always_replan = 2
   \<and> run_task interp wf_always_replan demo_task []
   = (Inl (RuntimeError ''Exceeded maximum plan attempts for task 't1'.''),
      [first_proposal, plan_approval 1, first_execution, first_review replan,
       reproposal (JStr ''redo''), plan_approval 2, first_execution, first_review replan])
   \<and> \<not> truthy (get replan ''approved'') \<and> truthy (get replan ''requires_replan'')
   \<and> take 5 (snd (run_task interp wf_silent_replan demo_task []))
     = [first_proposal, plan_approval 1, first_execution, first_review replan_silent,
        reproposal (JStr ''Reviewer requested a re-plan during execution.'')]
   \<and> \<not> truthy (get replan_silent ''approved'') \<and> truthy (get replan_silent ''requires_replan'')
   \<and> get replan_silent ''feedback'' = JStr ''''"
  by code_simp

text \<open>
  C2, as the code has it. The result of a run holds, in order, one step result for each
  execution attempt made while executing the last approved plan, approved or not, and
  nothing else: \<open>all_results\<close> starts empty at every call of \<^verbatim>\<open>_execute_plan\<close>.
\<close>

theorem run_result_holds_last_plan_attempt:
  assumes "run_task py self task tr = (Inr r, tr')"
  shows "step_results r = results_of (last_execution tr')
       \<and> length (filter is_execute_step (last_execution tr')) = length (step_results r)"
proof -
  have "\<exists>pre. plan_loop py self task 0 JNull None (tr @ pre) = (Inr r, tr')"
  proof (cases "coordinator self")
    case None
    with assms have "plan_loop py self task 0 JNull None (tr @ []) = (Inr r, tr')"
      by (simp add: run_task_def)
    then show ?thesis by (rule exI)
  next
    case (Some c)
    with assms show ?thesis
      by (cases "kickoff_task c tr task") (auto simp: run_task_def Let_def)
  qed
  then obtain pre where pl0: "plan_loop py self task 0 JNull None (tr @ pre) = (Inr r, tr')"
    by blast
  from plan_loop_extends [OF pl0] obtain d where d: "tr' = (tr @ pre) @ d" by blast
  from plan_loop_results [OF pl0 [unfolded d]]
  obtain da plan i prv dx where
    A: "d = da @ ReviewPlan task plan i (Inr prv) # dx"
    and B: "\<forall>e\<in>set dx. \<not> is_plan_event e" "step_results r = results_of dx"
      "length (filter is_execute_step dx) = length (step_results r)"
    by (elim exE conjE)
  from d A have "tr' = (tr @ pre @ da) @ ReviewPlan task plan i (Inr prv) # dx" by simp
  with B(1) have "last_execution tr' = dx"
    by (simp only: last_execution_after is_plan_event.simps)
  with B show ?thesis by simp
qed

theorem run_result_holds_last_plan_attempt_witness:
  "run_task interp wf_replan_once demo_task []
   = (Inr (projr (fst (run_task interp wf_replan_once demo_task []))),
      snd (run_task interp wf_replan_once demo_task []))
   \<and> step_results (projr (fst (run_task interp wf_replan_once demo_task [])))
     = results_of (last_execution (snd (run_task interp wf_replan_once demo_task [])))
   \<and> length (filter is_execute_step
               (last_execution (snd (run_task interp wf_replan_once demo_task []))))
     = length (step_results (projr (fst (run_task interp wf_replan_once demo_task []))))
   \<and> results_of (last_execution (snd (run_task interp wf_replan_once demo_task [])))
     = [step_result step1 done_output approve 1]"
proof -
  have run: "run_task interp wf_replan_once demo_task []
   = (Inr (projr (fst (run_task interp wf_replan_once demo_task []))),
      snd (run_task interp wf_replan_once demo_task []))"
    by code_simp
  have v: "results_of (last_execution (snd (run_task interp wf_replan_once demo_task [])))
     = [step_result step1 done_output approve 1]"
    by code_simp
  note W = run_result_holds_last_plan_attempt [OF run]
  show ?thesis
    by (intro conjI run W [THEN conjunct1] W [THEN conjunct2] v)
qed

text \<open>
  C2 as stated fails: in a run with one replan, the attempt made under the abandoned plan
  is in the log (two executions, two step results) but not in the returned result.
\<close>

theorem full_history_counterexample:
  "fst (run_task interp wf_replan_once demo_task [])
   = Inr \<lparr>task_of = demo_task, plan_of = one_step_plan,
          step_results = [step_result step1 done_output approve 1],
          reviewer_summary = ok_summary, coordinator_summary = None\<rparr>
   \<and> results_of (snd (run_task interp wf_replan_once demo_task []))
     = [step_result step1 done_output replan 1, step_result step1 done_output approve 1]
   \<and> length (filter is_execute_step (snd (run_task interp wf_replan_once demo_task []))) = 2"
  by code_simp

text \<open>
  C1. With \<open>max_plan_iterations = 5\<close> and \<open>max_replan_attempts = 2\<close>, three replan
  requests are followed by a fourth plan and a normal result: \<open>replan_attempts\<close> is set
  back to 0 after every plan approval and the \<^verbatim>\<open>while True\<close> around it never
  repeats, so the counter is 1 whenever it is compared with the bound.
\<close>

theorem replan_bound_not_enforced:
  "max_replan_attempts wf_three_replans = 2
   \<and> length (filter is_replan_request (snd (run_task interp wf_three_replans demo_task []))) = 3
   \<and> length (filter is_propose_plan (snd (run_task interp wf_three_replans demo_task []))) = 4
   \<and> fst (run_task interp wf_three_replans demo_task [])
     = Inr \<lparr>task_of = demo_task, plan_of = one_step_plan,
            step_results = [step_result step1 done_output approve 1],
            reviewer_summary = ok_summary, coordinator_summary = None\<rparr>"
  by code_simp

end
